theory Spec2Isabelle
  imports Main "HOL-Library.AList"
begin

section \<open>Schema descriptions\<close>

text \<open>
  A client schema field and a client schema, as \<^verbatim>\<open>createTypes\<close> reads them
  (\<^verbatim>\<open>ClientSchemaField\<close>, \<^verbatim>\<open>ClientSchema\<close>). The flags \<^verbatim>\<open>isRequired\<close> and
  \<^verbatim>\<open>isList\<close> are only ever tested for truthiness, so they are booleans here. The
  \<^verbatim>\<open>fields\<close> array is \<open>fields_list\<close>.
\<close>

record ClientSchemaField =
  fieldName :: string
  typeIdentifier :: string
  isRequired :: bool
  isList :: bool
  enumValues :: "string list"
  defaultValue :: "string option"

record ClientSchema =
  modelName :: string
  fields_list :: "ClientSchemaField list"

section \<open>JavaScript objects\<close>

text \<open>
  A JavaScript object used as a dictionary is an association list with one entry per own
  key, in insertion order: \<^verbatim>\<open>obj[k]\<close> is \<^term>\<open>map_of obj k\<close>, \<^verbatim>\<open>obj[k] = v\<close> is
  \<^term>\<open>AList.update k v obj\<close> (an existing key keeps its position), and \<^verbatim>\<open>for (k in obj)\<close>
  runs over \<^term>\<open>map fst obj\<close>. Keys inherited from \<^verbatim>\<open>Object.prototype\<close> are not part of
  the model, and keys that are array indices are enumerated in insertion order like the
  others.
\<close>

type_synonym 'v obj = "(string \<times> 'v) list"

text \<open>
  Modelled from the spec: \<^verbatim>\<open>mapArrayToObject\<close> of \<^verbatim>\<open>utils/array.js\<close> is missing from the
  sources. Its call sites give it an array, a key function, a value function and an
  optional object to fill; it stores \<^verbatim>\<open>valFn(x)\<close> under \<^verbatim>\<open>keyFn(x)\<close> for every element in
  order. The variant below threads a state through the value function, for callbacks that
  call \<^verbatim>\<open>parseClientType\<close>.
\<close>

fun mapArrayToObject ::
  "'a list \<Rightarrow> ('a \<Rightarrow> string) \<Rightarrow> ('a \<Rightarrow> 's \<Rightarrow> 'v \<times> 's) \<Rightarrow> 'v obj \<Rightarrow> 's \<Rightarrow> 'v obj \<times> 's" where
  "mapArrayToObject [] keyFn valFn ob s = (ob, s)"
| "mapArrayToObject (x # xs) keyFn valFn ob s =
     (case valFn x s of (v, s') \<Rightarrow> mapArrayToObject xs keyFn valFn (AList.update (keyFn x) v ob) s')"

text \<open>
  Modelled from the spec: \<^verbatim>\<open>mergeObjects\<close> of \<^verbatim>\<open>utils/object.js\<close> is missing from the
  sources. It returns one object holding the entries of both arguments; an entry of the
  second argument replaces an entry of the first with the same key.
\<close>

definition mergeObjects :: "'v obj \<Rightarrow> 'v obj \<Rightarrow> 'v obj" where
  "mergeObjects a b = foldl (\<lambda>ob (k, v). AList.update k v ob) a b"

section \<open>Schema types\<close>

text \<open>
  The types of the generated schema. An enum type is a reference to an instance in the
  store of constructed enum objects, so that two enum types are the same JavaScript object
  exactly when the references are equal. Object and connection types are referred to by
  the model name of their bundle in \<^verbatim>\<open>clientTypes\<close>. \<open>Relation\<close> is the marker object
  \<^verbatim>\<open>{ __isRelation: true, typeIdentifier }\<close>.
\<close>

datatype GraphQLType =
    GraphQLString
  | GraphQLBoolean
  | GraphQLInt
  | GraphQLFloat
  | GraphQLID
  | GraphQLEnumType nat
  | Relation string
  | GraphQLObjectType string
  | ConnectionType string
  | GraphQLNonNull GraphQLType
  | GraphQLList GraphQLType
  | GraphQLInputObjectType string "(string \<times> GraphQLType) list"

fun isRelation :: "GraphQLType \<Rightarrow> bool" where
  "isRelation (Relation ti) = True"
| "isRelation t = False"

fun isNonNull :: "GraphQLType \<Rightarrow> bool" where
  "isNonNull (GraphQLNonNull t) = True"
| "isNonNull t = False"

text \<open>
  An enum object: its name and its \<^verbatim>\<open>values\<close> object (\<^verbatim>\<open>{x: {value: x}}\<close> for every
  value \<open>x\<close>). The store holds every enum object constructed so far; \<^verbatim>\<open>new GraphQLEnumType\<close>
  appends one and yields its index. The cache \<^verbatim>\<open>enumTypes\<close> belongs to one call of
  \<^verbatim>\<open>createTypes\<close>. The checks graphql-js makes on the names of types and on the values of
  an enum type are outside the model: schema descriptions are taken to carry valid names,
  a value for every enum field and a scalar field for every entity.
\<close>

record EnumObject =
  enumName :: string
  enumVals :: "string obj"

record TypeState =
  store :: "EnumObject list"
  enumTypes :: "nat obj"

definition newGraphQLEnumType :: "string \<Rightarrow> string list \<Rightarrow> TypeState \<Rightarrow> nat \<times> TypeState" where
  "newGraphQLEnumType name vals s =
     (length (store s),
      s\<lparr>store := store s @
         [\<lparr>enumName = name,
           enumVals = fst (mapArrayToObject vals (\<lambda>x. x) (\<lambda>x u. (x, u)) [] ())\<rparr>]\<rparr>)"

subsection \<open>The scalar and enum type mapper\<close>

definition parseClientType :: "ClientSchemaField \<Rightarrow> string \<Rightarrow> TypeState \<Rightarrow> GraphQLType \<times> TypeState" where
  "parseClientType field mName s =
     (if typeIdentifier field = ''String'' then (GraphQLString, s)
      else if typeIdentifier field = ''Boolean'' then (GraphQLBoolean, s)
      else if typeIdentifier field = ''Int'' then (GraphQLInt, s)
      else if typeIdentifier field = ''Float'' then (GraphQLFloat, s)
      else if typeIdentifier field = ''GraphQLID'' then (GraphQLID, s)
      else if typeIdentifier field = ''Password'' then (GraphQLString, s)
      else if typeIdentifier field = ''Enum'' then
        (let enumTypeName = mName @ ''_'' @ fieldName field in
         case map_of (enumTypes s) enumTypeName of
           Some r \<Rightarrow> (GraphQLEnumType r, s)
         | None \<Rightarrow>
             (case newGraphQLEnumType enumTypeName (enumValues field) s of
                (r, s') \<Rightarrow>
                  (GraphQLEnumType r, s'\<lparr>enumTypes := AList.update enumTypeName r (enumTypes s')\<rparr>)))
      else (Relation (typeIdentifier field), s))"


section \<open>Failures\<close>

text \<open>
  What a JavaScript \<^verbatim>\<open>throw\<close> or a rejected promise carries: a \<^verbatim>\<open>TypeError\<close> of the
  engine (a property read on \<^verbatim>\<open>undefined\<close>, a call of something that is no function), the
  invariant of graphql-js that \<^verbatim>\<open>new GraphQLNonNull\<close> is never given a non-null type, a
  string handed to \<^verbatim>\<open>Promise.reject\<close>, or a failure reported by the backend.
\<close>

datatype Failure =
    TypeError
  | InvariantViolation
  | Rejection string
  | BackendFailure string

definition newGraphQLNonNull :: "GraphQLType \<Rightarrow> Failure + GraphQLType" where
  "newGraphQLNonNull t = (if isNonNull t then Inl InvariantViolation else Inr (GraphQLNonNull t))"

section \<open>Object types and bundles\<close>

text \<open>
  The resolver closures are kept as tags; what they compute at request time is defined
  further down. A field of an object type is the object \<^verbatim>\<open>{type, args, resolve}\<close>; \<open>args\<close>
  names the bundle whose \<^verbatim>\<open>queryFilterInputArguments\<close> object it refers to.
\<close>

datatype Resolver =
    ResolveGlobalId string ClientSchemaField
  | ResolveValueOrDefault ClientSchemaField
  | ResolveRelationList string string string
  | ResolveRelationOne string string
  | ResolveAllNodes string
  | ResolveViewerId
  | ResolveUser

record FieldConfig =
  type :: GraphQLType
  args :: "string option"
  resolve :: Resolver

record ObjectType =
  name :: string
  fields_obj :: "FieldConfig obj"

datatype SchemaType = RELAY | SIMPLE

record Bundle =
  clientSchema :: ClientSchema
  objectType :: ObjectType
  connectionType :: GraphQLType
  edgeType :: string
  createMutationInputArguments :: "GraphQLType obj"
  updateMutationInputArguments :: "GraphQLType obj"
  queryFilterInputArguments :: "GraphQLType obj"

type_synonym ClientTypes = "Bundle obj"

subsection \<open>Pass 1: object types and input arguments\<close>

definition generateObjectType :: "ClientSchema \<Rightarrow> TypeState \<Rightarrow> ObjectType \<times> TypeState" where
  "generateObjectType cs s =
     (case mapArrayToObject (fields_list cs) fieldName
             (\<lambda>field u.
                case parseClientType field (modelName cs) u of
                  (t, u') \<Rightarrow>
                    (\<lparr>type = t, args = None,
                      resolve = (if fieldName field = ''id''
                                 then ResolveGlobalId (modelName cs) field
                                 else ResolveValueOrDefault field)\<rparr>, u'))
             [] s of
        (graphQLFields, s') \<Rightarrow> (\<lparr>name = modelName cs, fields_obj = graphQLFields\<rparr>, s'))"

text \<open>\<^verbatim>\<open>Array.prototype.filter\<close> with a callback that calls \<^verbatim>\<open>parseClientType\<close>.\<close>

fun filterS :: "('a \<Rightarrow> 's \<Rightarrow> bool \<times> 's) \<Rightarrow> 'a list \<Rightarrow> 's \<Rightarrow> 'a list \<times> 's" where
  "filterS p [] s = ([], s)"
| "filterS p (x # xs) s =
     (case p x s of (b, s') \<Rightarrow>
        (case filterS p xs s' of (ys, s'') \<Rightarrow> ((if b then x # ys else ys), s'')))"

text \<open>
  In \<^verbatim>\<open>generateObjectMutationInputArguments\<close> the argument of \<^verbatim>\<open>new GraphQLNonNull\<close> is a
  result of \<^verbatim>\<open>parseClientType\<close> or \<^verbatim>\<open>GraphQLID\<close>, never a non-null type, so the
  constructor cannot fail there.
\<close>

definition generateObjectMutationInputArguments ::
  "ClientSchema \<Rightarrow> (ClientSchemaField \<Rightarrow> TypeState \<Rightarrow> bool \<times> TypeState) \<Rightarrow>
   (ClientSchemaField \<Rightarrow> TypeState \<Rightarrow> bool \<times> TypeState) \<Rightarrow> bool \<Rightarrow> bool \<Rightarrow>
   TypeState \<Rightarrow> GraphQLType obj \<times> TypeState" where
  "generateObjectMutationInputArguments cs scalarFilter oneToOneFilter forceFieldsOptional
       forceIdFieldOptional s0 =
     (case filterS scalarFilter (fields_list cs) s0 of (scalarFields, s1) \<Rightarrow>
      case mapArrayToObject scalarFields fieldName
             (\<lambda>field u.
                case parseClientType field (modelName cs) u of
                  (t, u') \<Rightarrow>
                    ((if isRequired field \<and>
                         \<not> (forceFieldsOptional \<and> (forceIdFieldOptional \<or> fieldName field \<noteq> ''id''))
                      then GraphQLNonNull t else t), u'))
             [] s1 of (scalarArguments, s2) \<Rightarrow>
      case filterS oneToOneFilter (fields_list cs) s2 of (onetoOneFields, s3) \<Rightarrow>
      case mapArrayToObject onetoOneFields (\<lambda>field. fieldName field @ ''Id'')
             (\<lambda>field u.
                ((if isRequired field \<and> \<not> forceFieldsOptional
                  then GraphQLNonNull GraphQLID else GraphQLID), u))
             [] s3 of (oneToOneArguments, s4) \<Rightarrow>
      (mergeObjects scalarArguments oneToOneArguments, s4))"

definition scalarFilterOf :: "ClientSchema \<Rightarrow> ClientSchemaField \<Rightarrow> TypeState \<Rightarrow> bool \<times> TypeState" where
  "scalarFilterOf cs field s =
     (case parseClientType field (modelName cs) s of (t, s') \<Rightarrow> (\<not> isRelation t, s'))"

definition oneToOneFilterOf :: "ClientSchema \<Rightarrow> ClientSchemaField \<Rightarrow> TypeState \<Rightarrow> bool \<times> TypeState" where
  "oneToOneFilterOf cs field s =
     (case parseClientType field (modelName cs) s of (t, s') \<Rightarrow> (isRelation t \<and> \<not> isList field, s'))"

definition generateCreateObjectMutationInputArguments ::
  "ClientSchema \<Rightarrow> TypeState \<Rightarrow> GraphQLType obj \<times> TypeState" where
  "generateCreateObjectMutationInputArguments cs =
     generateObjectMutationInputArguments cs
       (\<lambda>field s. case parseClientType field (modelName cs) s of
                     (t, s') \<Rightarrow> (\<not> isRelation t \<and> fieldName field \<noteq> ''id'', s'))
       (oneToOneFilterOf cs) False False"

definition generateUpdateObjectMutationInputArguments ::
  "ClientSchema \<Rightarrow> TypeState \<Rightarrow> GraphQLType obj \<times> TypeState" where
  "generateUpdateObjectMutationInputArguments cs =
     generateObjectMutationInputArguments cs (scalarFilterOf cs) (oneToOneFilterOf cs) True False"

text \<open>
  \<^verbatim>\<open>isScalar\<close> of \<^verbatim>\<open>utils/graphql.js\<close> is missing from the sources; it is a parameter. The
  sort-order enum is a new enum object on every call, outside the cache.
\<close>

definition generateQueryOrderByEnum ::
  "(string \<Rightarrow> bool) \<Rightarrow> ClientSchema \<Rightarrow> TypeState \<Rightarrow> GraphQLType \<times> TypeState" where
  "generateQueryOrderByEnum isScalar cs s =
     (let vals = concat (map (\<lambda>field. [fieldName field @ ''_ASC'', fieldName field @ ''_DESC''])
                          (filter (\<lambda>field. isScalar (typeIdentifier field)) (fields_list cs)))
      in case newGraphQLEnumType (modelName cs @ ''SortBy'') vals s of
           (r, s') \<Rightarrow> (GraphQLEnumType r, s'))"

definition connectionArgs :: "GraphQLType obj" where
  "connectionArgs =
     [(''before'', GraphQLString), (''after'', GraphQLString),
      (''first'', GraphQLInt), (''last'', GraphQLInt)]"

definition simpleConnectionArgs :: "GraphQLType obj" where
  "simpleConnectionArgs = [(''skip'', GraphQLInt), (''take'', GraphQLInt)]"

definition generateQueryFilterInputArguments ::
  "(string \<Rightarrow> bool) \<Rightarrow> SchemaType \<Rightarrow> ClientSchema \<Rightarrow> TypeState \<Rightarrow> GraphQLType obj \<times> TypeState" where
  "generateQueryFilterInputArguments isScalar schemaType cs s =
     (case generateObjectMutationInputArguments cs (scalarFilterOf cs) (oneToOneFilterOf cs)
             True True s of (fargs, s1) \<Rightarrow>
      case generateQueryOrderByEnum isScalar cs s1 of (orderByType, s2) \<Rightarrow>
      (mergeObjects (if schemaType = RELAY then connectionArgs else simpleConnectionArgs)
         [(''filter'', GraphQLInputObjectType (modelName cs @ ''Filter'') fargs),
          (''orderBy'', orderByType)], s2))"

text \<open>
  The callback of the first \<^verbatim>\<open>mapArrayToObject\<close> in \<^verbatim>\<open>createTypes\<close>.
  \<^verbatim>\<open>connectionDefinitions\<close> of graphql-relay makes the connection and edge types of the
  object type; they are referred to by the model name.
\<close>

definition generateBundle ::
  "(string \<Rightarrow> bool) \<Rightarrow> SchemaType \<Rightarrow> ClientSchema \<Rightarrow> TypeState \<Rightarrow> Bundle \<times> TypeState" where
  "generateBundle isScalar schemaType cs s0 =
     (case generateObjectType cs s0 of (ot, s1) \<Rightarrow>
      case generateCreateObjectMutationInputArguments cs s1 of (cargs, s2) \<Rightarrow>
      case generateUpdateObjectMutationInputArguments cs s2 of (uargs, s3) \<Rightarrow>
      case generateQueryFilterInputArguments isScalar schemaType cs s3 of (qargs, s4) \<Rightarrow>
      (\<lparr>clientSchema = cs, objectType = ot,
        connectionType = ConnectionType (modelName cs), edgeType = modelName cs @ ''Edge'',
        createMutationInputArguments = cargs, updateMutationInputArguments = uargs,
        queryFilterInputArguments = qargs\<rparr>, s4))"

subsection \<open>Pass 2: relationships\<close>

text \<open>
  \<^verbatim>\<open>objectTypeField.type.typeIdentifier\<close>: the marker object has the property, every other
  type reads \<^verbatim>\<open>undefined\<close>, which as a key of \<^verbatim>\<open>allClientTypes\<close> is the string
  \<^verbatim>\<open>"undefined"\<close>.
\<close>

fun typeIdentifierOf :: "GraphQLType \<Rightarrow> string" where
  "typeIdentifierOf (Relation ti) = ti"
| "typeIdentifierOf t = ''undefined''"

text \<open>The \<^verbatim>\<open>.filter\<close> of \<^verbatim>\<open>injectRelationships\<close>: it reads \<^verbatim>\<open>.type\<close> of the field object.\<close>

fun relationFields :: "FieldConfig obj \<Rightarrow> ClientSchemaField list \<Rightarrow> Failure + ClientSchemaField list" where
  "relationFields otf [] = Inr []"
| "relationFields otf (f # fs) =
     (case map_of otf (fieldName f) of
        None \<Rightarrow> Inl TypeError
      | Some fc \<Rightarrow>
          (case relationFields otf fs of
             Inl e \<Rightarrow> Inl e
           | Inr r \<Rightarrow> Inr (if isRelation (type fc) then f # r else r)))"

text \<open>The body of the \<^verbatim>\<open>.forEach\<close> of \<^verbatim>\<open>injectRelationships\<close>.\<close>

definition injectField ::
  "ClientTypes \<Rightarrow> ClientSchema \<Rightarrow> ClientSchemaField \<Rightarrow> FieldConfig obj \<Rightarrow> Failure + FieldConfig obj" where
  "injectField allClientTypes cs f otf =
     (case map_of otf (fieldName f) of
        None \<Rightarrow> Inl TypeError
      | Some fc \<Rightarrow>
          (let ti = typeIdentifierOf (type fc) in
           case map_of allClientTypes ti of
             None \<Rightarrow> Inl TypeError
           | Some b \<Rightarrow>
               if isList f
               then Inr (AList.update (fieldName f)
                           (fc\<lparr>type := connectionType b, args := Some ti,
                               resolve := ResolveRelationList (modelName cs) (fieldName f) ti\<rparr>) otf)
               else Inr (AList.update (fieldName f)
                           (fc\<lparr>type := GraphQLObjectType (name (objectType b)),
                               resolve := ResolveRelationOne (fieldName f) ti\<rparr>) otf)))"

fun forEachE :: "('a \<Rightarrow> 's \<Rightarrow> Failure + 's) \<Rightarrow> 'a list \<Rightarrow> 's \<Rightarrow> Failure + 's" where
  "forEachE body [] s = Inr s"
| "forEachE body (x # xs) s =
     (case body x s of Inl e \<Rightarrow> Inl e | Inr s' \<Rightarrow> forEachE body xs s')"

definition injectRelationships ::
  "ObjectType \<Rightarrow> ClientSchema \<Rightarrow> ClientTypes \<Rightarrow> Failure + ObjectType" where
  "injectRelationships ot cs allClientTypes =
     (case relationFields (fields_obj ot) (fields_list cs) of
        Inl e \<Rightarrow> Inl e
      | Inr rels \<Rightarrow>
          (case forEachE (injectField allClientTypes cs) rels (fields_obj ot) of
             Inl e \<Rightarrow> Inl e
           | Inr otf \<Rightarrow> Inr (ot\<lparr>fields_obj := otf\<rparr>)))"

subsection \<open>Pass 3: non-null wrapping\<close>

definition wrapField :: "ClientSchemaField \<Rightarrow> FieldConfig obj \<Rightarrow> Failure + FieldConfig obj" where
  "wrapField f otf =
     (case map_of otf (fieldName f) of
        None \<Rightarrow> Inl TypeError
      | Some fc \<Rightarrow>
          (case newGraphQLNonNull (type fc) of
             Inl e \<Rightarrow> Inl e
           | Inr t \<Rightarrow> Inr (AList.update (fieldName f) (fc\<lparr>type := t\<rparr>) otf)))"

definition wrapWithNonNull :: "ObjectType \<Rightarrow> ClientSchema \<Rightarrow> Failure + ObjectType" where
  "wrapWithNonNull ot cs =
     (case forEachE wrapField (filter isRequired (fields_list cs)) (fields_obj ot) of
        Inl e \<Rightarrow> Inl e
      | Inr otf \<Rightarrow> Inr (ot\<lparr>fields_obj := otf\<rparr>))"

subsection \<open>createTypes\<close>

text \<open>
  One round of a \<^verbatim>\<open>for (const modelName in clientTypes)\<close> loop that changes the object type
  of the bundle in place.
\<close>

definition onBundle ::
  "(Bundle \<Rightarrow> ClientTypes \<Rightarrow> Failure + ObjectType) \<Rightarrow> string \<Rightarrow> ClientTypes \<Rightarrow> Failure + ClientTypes" where
  "onBundle pass mName clientTypes =
     (case map_of clientTypes mName of
        None \<Rightarrow> Inl TypeError
      | Some b \<Rightarrow>
          (case pass b clientTypes of
             Inl e \<Rightarrow> Inl e
           | Inr ot \<Rightarrow> Inr (AList.update mName (b\<lparr>objectType := ot\<rparr>) clientTypes)))"

definition viewerFieldsOf :: "SchemaType \<Rightarrow> ClientTypes \<Rightarrow> FieldConfig obj" where
  "viewerFieldsOf schemaType clientTypes =
     (let perModel =
            foldl (\<lambda>vf (mName, b).
                     AList.update (''all'' @ mName @ ''s'')
                       \<lparr>type = (if schemaType = RELAY then connectionType b
                                 else GraphQLList (GraphQLObjectType (name (objectType b)))),
                        args = Some mName, resolve = ResolveAllNodes mName\<rparr> vf)
                  [] clientTypes;
          withId = AList.update ''id'' \<lparr>type = GraphQLID, args = None, resolve = ResolveViewerId\<rparr> perModel
      in case map_of clientTypes ''User'' of
           None \<Rightarrow> withId
         | Some b \<Rightarrow>
             AList.update ''user''
               \<lparr>type = GraphQLObjectType (name (objectType b)), args = None, resolve = ResolveUser\<rparr>
               withId)"

record AllTypes =
  clientTypes :: ClientTypes
  viewerFields :: "FieldConfig obj"

text \<open>
  \<^verbatim>\<open>createTypes\<close> takes the store of enum objects constructed before the call and returns
  the store after it; its cache \<^verbatim>\<open>enumTypes\<close> starts empty on every call. The node
  interface and the viewer type object add no field or type of their own and are left out
  of the result.
\<close>

definition createTypes ::
  "(string \<Rightarrow> bool) \<Rightarrow> ClientSchema list \<Rightarrow> SchemaType \<Rightarrow> EnumObject list \<Rightarrow>
   Failure + (AllTypes \<times> EnumObject list)" where
  "createTypes isScalar clientSchemas schemaType st =
     (case mapArrayToObject clientSchemas modelName (generateBundle isScalar schemaType) []
             \<lparr>store = st, enumTypes = []\<rparr> of
        (ct1, s) \<Rightarrow>
          (case forEachE (onBundle (\<lambda>b all. injectRelationships (objectType b) (clientSchema b) all))
                  (map fst ct1) ct1 of
             Inl e \<Rightarrow> Inl e
           | Inr ct2 \<Rightarrow>
               (case forEachE (onBundle (\<lambda>b all. wrapWithNonNull (objectType b) (clientSchema b)))
                       (map fst ct2) ct2 of
                  Inl e \<Rightarrow> Inl e
                | Inr ct3 \<Rightarrow>
                    Inr (\<lparr>clientTypes = ct3, viewerFields = viewerFieldsOf schemaType ct3\<rparr>,
                         store s))))"

section \<open>Request time\<close>

subsection \<open>Values, records and promises\<close>

text \<open>
  The values a backend record holds. Numbers are the integers (the values of \<^verbatim>\<open>GraphQLInt\<close>
  fields); a record is an object from field names to values, and reading a property that
  is not there gives \<^verbatim>\<open>undefined\<close>.
\<close>

datatype JSValue = JSUndefined | JSNull | JSBoolean bool | JSNumber int | JSString string

type_synonym Node = "JSValue obj"

definition getProp :: "Node \<Rightarrow> string \<Rightarrow> JSValue" where
  "getProp x k = (case map_of x k of None \<Rightarrow> JSUndefined | Some v \<Rightarrow> v)"

fun truthy :: "JSValue \<Rightarrow> bool" where
  "truthy JSUndefined = False"
| "truthy JSNull = False"
| "truthy (JSBoolean b) = b"
| "truthy (JSNumber n) = (n \<noteq> 0)"
| "truthy (JSString s) = (s \<noteq> [])"

text \<open>
  A settled promise. \<open>andThen\<close> is \<^verbatim>\<open>.then(f)\<close>, where \<open>f\<close> answers with \<open>Resolved\<close> for a
  returned value and with \<open>Rejected\<close> for a thrown error or a rejected promise.
  \<open>catchLog\<close> is \<^verbatim>\<open>.catch(console.log)\<close>: a rejection is printed and the promise
  resolves with what \<^verbatim>\<open>console.log\<close> returns, \<^verbatim>\<open>undefined\<close> (here \<open>None\<close>); the second
  component is what was printed.
\<close>

datatype 'a Promise = Resolved 'a | Rejected Failure

fun andThen :: "'a Promise \<Rightarrow> ('a \<Rightarrow> 'b Promise) \<Rightarrow> 'b Promise" where
  "andThen (Resolved v) f = f v"
| "andThen (Rejected e) f = Rejected e"

fun catchLog :: "'a Promise \<Rightarrow> 'a option Promise \<times> Failure list" where
  "catchLog (Resolved v) = (Resolved (Some v), [])"
| "catchLog (Rejected e) = (Resolved None, [e])"

text \<open>
  The arguments of a collection field. An absent argument is \<open>None\<close>. Cursors are kept as
  the offsets they encode, and a cursor that does not decode counts as absent, as in
  graphql-relay. \<open>first_arg\<close> and \<open>last_arg\<close> are natural numbers: what graphql-relay does
  with a negative count is outside the model.
\<close>

record Args =
  filter_arg :: "Node option"
  orderBy :: "string option"
  skip :: "int option"
  take_arg :: "int option"
  after :: "int option"
  before :: "int option"
  first_arg :: "nat option"
  last_arg :: "nat option"

text \<open>
  The backend as one request sees it: \<^verbatim>\<open>currentUser\<close> and \<^verbatim>\<open>operation\<close> are handed through
  to it unchanged and are part of the backend here.
\<close>

record Backend =
  allNodesByRelation :: "string \<Rightarrow> JSValue \<Rightarrow> string \<Rightarrow> Args \<Rightarrow> ClientSchema \<Rightarrow> Node list Promise"
  node :: "string \<Rightarrow> JSValue \<Rightarrow> ClientSchema \<Rightarrow> Node option Promise"
  allNodesByType :: "string \<Rightarrow> Args \<Rightarrow> ClientSchema \<Rightarrow> Node list Promise"
  NO_PERMISSION_CHECK_allNodesByType :: "string \<Rightarrow> Node list Promise"
  compareHashAsync :: "string \<Rightarrow> JSValue \<Rightarrow> bool Promise"
  tokenForUser :: "Node \<Rightarrow> string"

subsection \<open>Filtering\<close>

definition getFilterPairsFromFilterArgument :: "Node option \<Rightarrow> (string \<times> JSValue) list" where
  "getFilterPairsFromFilterArgument fo =
     (case fo of
        None \<Rightarrow> []
      | Some ob \<Rightarrow>
          map (\<lambda>field. (field, getProp ob field))
            (filter (\<lambda>field. getProp ob field \<noteq> JSNull \<and> getProp ob field \<noteq> JSUndefined)
               (map fst ob)))"

text \<open>
  The filter step of both collection resolvers. \<^verbatim>\<open>convertInputFieldsToInternalIds\<close> of
  \<^verbatim>\<open>utils/graphql.js\<close> is missing from the sources; it is the parameter \<open>conv\<close>.
\<close>

definition filterStep ::
  "(Node \<Rightarrow> ClientSchema \<Rightarrow> Node) \<Rightarrow> ClientSchema \<Rightarrow> Args \<Rightarrow> Node list \<Rightarrow> Node list" where
  "filterStep conv cs a array =
     (case filter_arg a of
        None \<Rightarrow> array
      | Some fo \<Rightarrow>
          filter (\<lambda>x. list_all (\<lambda>(field, v). getProp x field = v)
                        (getFilterPairsFromFilterArgument (Some (conv fo cs))))
            array)"

subsection \<open>Connections\<close>

text \<open>
  \<^verbatim>\<open>Array.prototype.slice(begin, end)\<close>: a negative index counts from the end, and both
  indices are cut to the array.
\<close>

definition js_slice :: "'a list \<Rightarrow> int \<Rightarrow> int \<Rightarrow> 'a list" where
  "js_slice xs b e =
     (let len = int (length xs);
          k = (if b < 0 then max (len + b) 0 else min b len);
          final = (if e < 0 then max (len + e) 0 else min e len)
      in take (nat (final - k)) (drop (nat k) xs))"

record Edge =
  cursor :: int
  edgeNode :: Node

record PageInfo =
  startCursor :: "int option"
  endCursor :: "int option"
  hasPreviousPage :: bool
  hasNextPage :: bool

record Connection =
  edges :: "Edge list"
  pageInfo :: PageInfo
  totalCount :: nat

text \<open>
  \<^verbatim>\<open>connectionFromArray\<close> of the graphql-relay library, after the library's algorithm
  (\<^verbatim>\<open>connectionFromArraySlice\<close> with the whole array as the slice): the window starts
  behind \<^verbatim>\<open>after\<close>, ends before \<^verbatim>\<open>before\<close>, is cut to \<^verbatim>\<open>first\<close> elements from its start and
  then to \<^verbatim>\<open>last\<close> elements from its end.
\<close>

definition connectionFromArray :: "Node list \<Rightarrow> Args \<Rightarrow> Edge list \<times> PageInfo" where
  "connectionFromArray array a =
     (let arrayLength = int (length array);
          beforeOffset = (case before a of None \<Rightarrow> arrayLength | Some b \<Rightarrow> b);
          afterOffset = (case after a of None \<Rightarrow> - 1 | Some c \<Rightarrow> c);
          startOffset0 = max (max (- 1) afterOffset) (- 1) + 1;
          endOffset0 = min (min arrayLength beforeOffset) arrayLength;
          endOffset = (case first_arg a of None \<Rightarrow> endOffset0
                       | Some n \<Rightarrow> min endOffset0 (startOffset0 + int n));
          startOffset = (case last_arg a of None \<Rightarrow> startOffset0
                         | Some n \<Rightarrow> max startOffset0 (endOffset - int n));
          sl = js_slice array (max startOffset 0) (arrayLength - (arrayLength - endOffset));
          es = map (\<lambda>(i, v). \<lparr>cursor = startOffset + int i, edgeNode = v\<rparr>)
                 (zip [0 ..< length sl] sl);
          lowerBound = (case after a of None \<Rightarrow> 0 | Some c \<Rightarrow> afterOffset + 1);
          upperBound = (case before a of None \<Rightarrow> arrayLength | Some b \<Rightarrow> beforeOffset)
      in (es,
          \<lparr>startCursor = (case es of [] \<Rightarrow> None | e # r \<Rightarrow> Some (cursor e)),
           endCursor = (case es of [] \<Rightarrow> None | e # r \<Rightarrow> Some (cursor (last es))),
           hasPreviousPage = (case last_arg a of None \<Rightarrow> False | Some n \<Rightarrow> startOffset > lowerBound),
           hasNextPage = (case first_arg a of None \<Rightarrow> False | Some n \<Rightarrow> endOffset < upperBound)\<rparr>))"

subsection \<open>Relation resolvers\<close>

text \<open>
  The resolver that \<^verbatim>\<open>injectRelationships\<close> gives a one-to-many field of the entity
  \<open>mName\<close>; \<open>ti\<close> is the type identifier of the related entity and \<open>allClientTypes\<close> the
  bundle set the closure holds. Reading \<^verbatim>\<open>.clientSchema\<close> of a bundle that is not there throws
  before any promise exists; the query engine sees that as a rejection, and so does the
  model.
\<close>

definition resolveRelationList ::
  "Backend \<Rightarrow> (Node \<Rightarrow> ClientSchema \<Rightarrow> Node) \<Rightarrow> ClientTypes \<Rightarrow> string \<Rightarrow> string \<Rightarrow> string \<Rightarrow>
   Node \<Rightarrow> Args \<Rightarrow> Connection option Promise \<times> Failure list" where
  "resolveRelationList backend conv allClientTypes mName fName ti ob a =
     (case map_of allClientTypes ti of
        None \<Rightarrow> (Rejected TypeError, [])
      | Some b \<Rightarrow>
          catchLog
            (andThen (allNodesByRelation backend mName (getProp ob ''id'') fName a (clientSchema b))
               (\<lambda>array0.
                  let array = filterStep conv (clientSchema b) a array0
                  in case connectionFromArray array a of
                       (es, pinfo) \<Rightarrow>
                         Resolved \<lparr>edges = es, pageInfo = pinfo, totalCount = length array\<rparr>)))"

text \<open>The resolver of a one-to-one field.\<close>

definition resolveRelationOne ::
  "Backend \<Rightarrow> ClientTypes \<Rightarrow> string \<Rightarrow> string \<Rightarrow> Node \<Rightarrow> Node option Promise" where
  "resolveRelationOne backend allClientTypes fName ti ob =
     (if truthy (getProp ob (fName @ ''Id''))
      then (case map_of allClientTypes ti of
              None \<Rightarrow> Rejected TypeError
            | Some b \<Rightarrow> node backend ti (getProp ob (fName @ ''Id'')) (clientSchema b))
      else Resolved None)"

subsection \<open>The root collection resolver\<close>

text \<open>
  \<^verbatim>\<open>s.indexOf(sep) > -1\<close> and \<^verbatim>\<open>s.split(sep)[0]\<close> for a separator that is not empty: whether
  \<open>sep\<close> occurs in \<open>s\<close>, and the part of \<open>s\<close> before its first occurrence (all of \<open>s\<close> when
  there is none).
\<close>

fun occursIn :: "string \<Rightarrow> string \<Rightarrow> bool" where
  "occursIn sep [] = (sep = [])"
| "occursIn sep (c # cs) = (take (length sep) (c # cs) = sep \<or> occursIn sep cs)"

fun splitHead :: "string \<Rightarrow> string \<Rightarrow> string" where
  "splitHead sep [] = []"
| "splitHead sep (c # cs) = (if take (length sep) (c # cs) = sep then [] else c # splitHead sep cs)"

definition orderOf :: "string \<Rightarrow> string" where
  "orderOf ob = (if occursIn ''_DESC'' ob then ''DESC'' else ''ASC'')"

definition orderFieldName :: "string \<Rightarrow> string" where
  "orderFieldName ob = splitHead (''_'' @ orderOf ob) ob"

text \<open>
  \<^verbatim>\<open>toLowerCase\<close> and \<^verbatim>\<open>localeCompare\<close> on strings of ASCII characters. The collation of
  the host is taken to be the order of the character codes, which is what it is on
  lower-case letters and digits.
\<close>

definition toLowerCase :: "string \<Rightarrow> string" where
  "toLowerCase s =
     map (\<lambda>c. if 65 \<le> (of_char c :: nat) \<and> (of_char c :: nat) \<le> 90
              then char_of ((of_char c :: nat) + 32) else c) s"

fun localeCompare :: "string \<Rightarrow> string \<Rightarrow> int" where
  "localeCompare [] [] = 0"
| "localeCompare [] (d # ds) = - 1"
| "localeCompare (c # cs) [] = 1"
| "localeCompare (c # cs) (d # ds) =
     (if (of_char c :: nat) < of_char d then - 1
      else if (of_char d :: nat) < of_char c then 1
      else localeCompare cs ds)"

text \<open>
  \<^verbatim>\<open>ToNumber\<close> for the operands of \<^verbatim>\<open>-\<close>; \<open>None\<close> is \<^verbatim>\<open>NaN\<close>. Numbers being integers here,
  a string counts as a number when it is empty or an unsigned decimal integer; the other
  numeric forms of strings (a sign, a fraction, an exponent, surrounding blanks) are outside
  the model and read as \<^verbatim>\<open>NaN\<close>.
\<close>

fun digitsValue :: "string \<Rightarrow> nat \<Rightarrow> nat option" where
  "digitsValue [] acc = Some acc"
| "digitsValue (c # cs) acc =
     (if 48 \<le> (of_char c :: nat) \<and> (of_char c :: nat) \<le> 57
      then digitsValue cs (10 * acc + (of_char c - 48))
      else None)"

fun toNumber :: "JSValue \<Rightarrow> int option" where
  "toNumber JSUndefined = None"
| "toNumber JSNull = Some 0"
| "toNumber (JSBoolean b) = Some (if b then 1 else 0)"
| "toNumber (JSNumber n) = Some n"
| "toNumber (JSString s) = map_option int (digitsValue s 0)"

definition minus_js :: "JSValue \<Rightarrow> JSValue \<Rightarrow> int option" where
  "minus_js x y =
     (case toNumber x of
        None \<Rightarrow> None
      | Some m \<Rightarrow> (case toNumber y of None \<Rightarrow> None | Some n \<Rightarrow> Some (m - n)))"

text \<open>
  The two comparison callbacks. A string has \<^verbatim>\<open>toLowerCase\<close>; calling it on any other
  value throws a \<^verbatim>\<open>TypeError\<close>.
\<close>

definition lowerCompare :: "JSValue \<Rightarrow> JSValue \<Rightarrow> Failure + int option" where
  "lowerCompare x y =
     (case x of
        JSString s \<Rightarrow>
          (case y of
             JSString t \<Rightarrow> Inr (Some (localeCompare (toLowerCase s) (toLowerCase t)))
           | _ \<Rightarrow> Inl TypeError)
      | _ \<Rightarrow> Inl TypeError)"

definition compareDesc :: "string \<Rightarrow> Node \<Rightarrow> Node \<Rightarrow> Failure + int option" where
  "compareDesc fName a b =
     (case getProp a fName of
        JSString s \<Rightarrow> lowerCompare (getProp b fName) (getProp a fName)
      | _ \<Rightarrow> Inr (minus_js (getProp b fName) (getProp a fName)))"

definition compareAsc :: "string \<Rightarrow> Node \<Rightarrow> Node \<Rightarrow> Failure + int option" where
  "compareAsc fName a b =
     (case getProp a fName of
        JSString s \<Rightarrow> lowerCompare (getProp a fName) (getProp b fName)
      | _ \<Rightarrow> Inr (minus_js (getProp a fName) (getProp b fName)))"

text \<open>
  \<^verbatim>\<open>Array.prototype.sort(compare)\<close> as a stable insertion sort: an element moves behind
  the elements the callback puts before it. A result of \<^verbatim>\<open>NaN\<close> counts as \<open>0\<close>, and an
  error thrown by the callback ends the sort.
\<close>

fun insertBy :: "('a \<Rightarrow> 'a \<Rightarrow> Failure + int option) \<Rightarrow> 'a \<Rightarrow> 'a list \<Rightarrow> Failure + 'a list" where
  "insertBy cmp x [] = Inr [x]"
| "insertBy cmp x (y # ys) =
     (case cmp x y of
        Inl e \<Rightarrow> Inl e
      | Inr c \<Rightarrow>
          if (case c of None \<Rightarrow> False | Some n \<Rightarrow> n > 0)
          then (case insertBy cmp x ys of Inl e \<Rightarrow> Inl e | Inr r \<Rightarrow> Inr (y # r))
          else Inr (x # y # ys))"

fun sortBy :: "('a \<Rightarrow> 'a \<Rightarrow> Failure + int option) \<Rightarrow> 'a list \<Rightarrow> Failure + 'a list" where
  "sortBy cmp [] = Inr []"
| "sortBy cmp (x # xs) =
     (case sortBy cmp xs of Inl e \<Rightarrow> Inl e | Inr r \<Rightarrow> insertBy cmp x r)"

definition sortStep :: "Args \<Rightarrow> Node list \<Rightarrow> Failure + Node list" where
  "sortStep a array =
     (case orderBy a of
        None \<Rightarrow> Inr array
      | Some ob \<Rightarrow>
          if ob = [] then Inr array
          else if orderOf ob = ''DESC'' then sortBy (compareDesc (orderFieldName ob)) array
          else sortBy (compareAsc (orderFieldName ob)) array)"

text \<open>
  The last step in simple mode. \<^verbatim>\<open>args.skip || 0\<close> and \<^verbatim>\<open>args.take || array.length\<close>: an
  absent argument and the number 0 are both falsy.
\<close>

definition sliceStep :: "Args \<Rightarrow> Node list \<Rightarrow> Node list" where
  "sliceStep a array =
     (let skip' = (case skip a of None \<Rightarrow> 0 | Some n \<Rightarrow> if n = 0 then 0 else n);
          take' = (case take_arg a of None \<Rightarrow> int (length array)
                   | Some n \<Rightarrow> if n = 0 then int (length array) else n)
      in js_slice array skip' (skip' + take'))"

datatype QueryResult = AsConnection Connection | AsList "Node list"

definition resolveAllNodes ::
  "Backend \<Rightarrow> (Node \<Rightarrow> ClientSchema \<Rightarrow> Node) \<Rightarrow> ClientTypes \<Rightarrow> SchemaType \<Rightarrow> string \<Rightarrow> Args \<Rightarrow>
   QueryResult Promise" where
  "resolveAllNodes backend conv allClientTypes schemaType mName a =
     (case map_of allClientTypes mName of
        None \<Rightarrow> Rejected TypeError
      | Some b \<Rightarrow>
          andThen (allNodesByType backend mName a (clientSchema b))
            (\<lambda>array0.
               case sortStep a (filterStep conv (clientSchema b) a array0) of
                 Inl e \<Rightarrow> Rejected e
               | Inr array \<Rightarrow>
                   if schemaType = RELAY
                   then (case connectionFromArray array a of
                           (es, pinfo) \<Rightarrow>
                             Resolved (AsConnection
                               \<lparr>edges = es, pageInfo = pinfo, totalCount = length array\<rparr>))
                   else Resolved (AsList (sliceStep a array))))"

subsection \<open>Sign-in\<close>

text \<open>The payload \<^verbatim>\<open>{token, viewer: {id}}\<close>.\<close>

record SigninPayload =
  token :: string
  viewer_id :: JSValue

definition mutateAndGetPayload :: "Backend \<Rightarrow> string \<Rightarrow> string \<Rightarrow> SigninPayload Promise" where
  "mutateAndGetPayload backend email password =
     andThen
       (andThen
          (andThen (NO_PERMISSION_CHECK_allNodesByType backend ''User'')
             (\<lambda>allUsers.
                Resolved (case filter (\<lambda>nd. getProp nd ''email'' = JSString email) allUsers of
                            [] \<Rightarrow> None
                          | u # r \<Rightarrow> Some u)))
          (\<lambda>user.
             case user of
               None \<Rightarrow>
                 Rejected (Rejection (''no user with the email '' @ [CHR 0x27] @ email @ [CHR 0x27]))
             | Some u \<Rightarrow>
                 andThen (compareHashAsync backend password (getProp u ''password''))
                   (\<lambda>result.
                      if \<not> result
                      then Rejected (Rejection (''incorrect password for email '' @ [CHR 0x27] @
                                                 email @ [CHR 0x27]))
                      else Resolved u)))
       (\<lambda>user. Resolved \<lparr>token = tokenForUser backend user, viewer_id = getProp user ''id''\<rparr>)"

section \<open>Auxiliary notions and example inputs\<close>

text \<open>The case labels of \<^verbatim>\<open>parseClientType\<close>, and the types its labelled cases return.\<close>

definition concreteTypeIdentifiers :: "string list" where
  "concreteTypeIdentifiers =
     [''String'', ''Boolean'', ''Int'', ''Float'', ''GraphQLID'', ''Password'', ''Enum'']"

fun isConcreteType :: "GraphQLType \<Rightarrow> bool" where
  "isConcreteType GraphQLString = True"
| "isConcreteType GraphQLBoolean = True"
| "isConcreteType GraphQLInt = True"
| "isConcreteType GraphQLFloat = True"
| "isConcreteType GraphQLID = True"
| "isConcreteType (GraphQLEnumType r) = True"
| "isConcreteType t = False"

text \<open>A run of calls of \<^verbatim>\<open>parseClientType\<close> inside one call of \<^verbatim>\<open>createTypes\<close>.\<close>

fun parseAll :: "(ClientSchemaField \<times> string) list \<Rightarrow> TypeState \<Rightarrow> TypeState" where
  "parseAll [] s = s"
| "parseAll ((f, m) # cs) s = parseAll cs (snd (parseClientType f m s))"

text \<open>Reading the outcome of \<^verbatim>\<open>createTypes\<close>: the type of a field of an object type, and the store.\<close>

definition objectFieldType ::
  "Failure + AllTypes \<times> EnumObject list \<Rightarrow> string \<Rightarrow> string \<Rightarrow> GraphQLType option" where
  "objectFieldType r m f =
     (case r of
        Inl e \<Rightarrow> None
      | Inr (res, st) \<Rightarrow>
          (case map_of (clientTypes res) m of
             None \<Rightarrow> None
           | Some b \<Rightarrow> map_option type (map_of (fields_obj (objectType b)) f)))"

definition storeAfter :: "Failure + AllTypes \<times> EnumObject list \<Rightarrow> EnumObject list" where
  "storeAfter r = (case r of Inl e \<Rightarrow> [] | Inr (res, st) \<Rightarrow> st)"

text \<open>
  What the relationship pass reads of the bundle set: for every model name the client
  schema, the connection type and the name of the object type.
\<close>

definition refsOf :: "ClientTypes \<Rightarrow> (string \<times> ClientSchema \<times> GraphQLType \<times> string) list" where
  "refsOf ct = map (\<lambda>(k, b). (k, clientSchema b, connectionType b, name (objectType b))) ct"

text \<open>A blog schema: users with posts, posts with an author, a title and a status.\<close>

definition exField :: "string \<Rightarrow> string \<Rightarrow> bool \<Rightarrow> bool \<Rightarrow> ClientSchemaField" where
  "exField n ti req lst =
     \<lparr>fieldName = n, typeIdentifier = ti, isRequired = req, isList = lst,
      enumValues = [], defaultValue = None\<rparr>"

definition exUser :: ClientSchema where
  "exUser = \<lparr>modelName = ''User'',
             fields_list = [exField ''id'' ''GraphQLID'' True False,
                            exField ''email'' ''String'' True False,
                            exField ''posts'' ''Post'' True True]\<rparr>"

definition exPost :: ClientSchema where
  "exPost = \<lparr>modelName = ''Post'',
             fields_list = [exField ''id'' ''GraphQLID'' True False,
                            exField ''title'' ''String'' False False,
                            exField ''author'' ''User'' True False,
                            (exField ''status'' ''Enum'' True False)
                               \<lparr>enumValues := [''DRAFT'', ''PUBLISHED'']\<rparr>]\<rparr>"

definition exIsScalar :: "string \<Rightarrow> bool" where
  "exIsScalar ti = (ti \<in> set concreteTypeIdentifiers)"

text \<open>Records of the blog, a backend that answers, and backends whose calls are rejected.\<close>

definition exPosts :: "Node list" where
  "exPosts =
     [[(''id'', JSString ''p1''), (''title'', JSString ''Delta''), (''status'', JSString ''DRAFT'')],
      [(''id'', JSString ''p2''), (''title'', JSString ''alpha''), (''status'', JSString ''PUBLISHED'')],
      [(''id'', JSString ''p3''), (''title'', JSString ''Charlie''), (''status'', JSString ''DRAFT'')],
      [(''id'', JSString ''p4''), (''title'', JSString ''bravo''), (''status'', JSString ''PUBLISHED'')],
      [(''id'', JSString ''p5''), (''title'', JSString ''echo''), (''status'', JSString ''DRAFT'')]]"

definition exUsers :: "Node list" where
  "exUsers =
     [[(''id'', JSString ''u1''), (''email'', JSString ''a@b.com''), (''password'', JSString ''hash-P'')],
      [(''id'', JSString ''u2''), (''email'', JSString ''c@d.com''), (''password'', JSString ''hash-Q'')]]"

definition exBackend :: Backend where
  "exBackend =
     \<lparr>allNodesByRelation = (\<lambda>m i f a cs. Resolved exPosts),
      node = (\<lambda>t i cs. Resolved None),
      allNodesByType = (\<lambda>m a cs. Resolved exPosts),
      NO_PERMISSION_CHECK_allNodesByType = (\<lambda>t. Resolved exUsers),
      compareHashAsync = (\<lambda>p h. Resolved (h = JSString (''hash-'' @ p))),
      tokenForUser = (\<lambda>u. case getProp u ''id'' of JSString s \<Rightarrow> ''token-'' @ s | _ \<Rightarrow> [])\<rparr>"

definition exDownBackend :: Backend where
  "exDownBackend =
     \<lparr>allNodesByRelation = (\<lambda>m i f a cs. Rejected (BackendFailure ''down'')),
      node = (\<lambda>t i cs. Rejected (BackendFailure ''down'')),
      allNodesByType = (\<lambda>m a cs. Rejected (BackendFailure ''down'')),
      NO_PERMISSION_CHECK_allNodesByType = (\<lambda>t. Rejected (BackendFailure ''down'')),
      compareHashAsync = (\<lambda>p h. Rejected (BackendFailure ''down'')),
      tokenForUser = (\<lambda>u. [])\<rparr>"

definition exHashDownBackend :: Backend where
  "exHashDownBackend = exBackend\<lparr>compareHashAsync := (\<lambda>p h. Rejected (BackendFailure ''down''))\<rparr>"

definition exConv :: "Node \<Rightarrow> ClientSchema \<Rightarrow> Node" where
  "exConv fo cs = fo"

definition exNoArgs :: Args where
  "exNoArgs =
     \<lparr>filter_arg = None, orderBy = None, skip = None, take_arg = None,
      after = None, before = None, first_arg = None, last_arg = None\<rparr>"

definition exRelayTypes :: ClientTypes where
  "exRelayTypes =
     (case createTypes exIsScalar [exUser, exPost] RELAY [] of
        Inl e \<Rightarrow> []
      | Inr (res, st) \<Rightarrow> clientTypes res)"

definition exTypes :: ClientTypes where
  "exTypes =
     (case createTypes exIsScalar [exUser, exPost] SIMPLE [] of
        Inl e \<Rightarrow> []
      | Inr (res, st) \<Rightarrow> clientTypes res)"

text \<open>A schema with a field whose name contains \<^verbatim>\<open>_ASC\<close>, and two of its records.\<close>

definition exBook :: ClientSchema where
  "exBook = \<lparr>modelName = ''Book'',
             fields_list = [exField ''id'' ''GraphQLID'' True False,
                            exField ''title'' ''String'' True False,
                            exField ''title_ASCII'' ''String'' True False]\<rparr>"

definition exBooks :: "Node list" where
  "exBooks =
     [[(''id'', JSString ''b1''), (''title'', JSString ''zebra''), (''title_ASCII'', JSString ''aaa'')],
      [(''id'', JSString ''b2''), (''title'', JSString ''apple''), (''title_ASCII'', JSString ''bbb'')]]"

definition exBookBackend :: Backend where
  "exBookBackend = exBackend\<lparr>allNodesByType := (\<lambda>m a cs. Resolved exBooks)\<rparr>"

definition exBookTypes :: ClientTypes where
  "exBookTypes =
     (case createTypes exIsScalar [exBook] SIMPLE [] of
        Inl e \<Rightarrow> []
      | Inr (res, st) \<Rightarrow> clientTypes res)"

section \<open>The scalar and enum type mapper\<close>

text \<open>
  Claim C4, as amended. For a field whose type identifier is one of \<^verbatim>\<open>'String'\<close>,
  \<^verbatim>\<open>'Boolean'\<close>, \<^verbatim>\<open>'Int'\<close>, \<^verbatim>\<open>'Float'\<close>, \<^verbatim>\<open>'GraphQLID'\<close>, \<^verbatim>\<open>'Password'\<close> or \<^verbatim>\<open>'Enum'\<close>, the
  mapper returns a scalar or enum type; for every other type identifier it returns the
  relation marker carrying that identifier.
\<close>

theorem parseClientType_concrete:
  "(typeIdentifier f \<in> set concreteTypeIdentifiers \<longrightarrow> isConcreteType (fst (parseClientType f m s))) \<and>
   (typeIdentifier f \<notin> set concreteTypeIdentifiers \<longrightarrow>
      fst (parseClientType f m s) = Relation (typeIdentifier f))"
  by (auto simp: parseClientType_def concreteTypeIdentifiers_def newGraphQLEnumType_def Let_def
           split: option.splits prod.splits)

theorem parseClientType_concrete_witness:
  "isConcreteType (fst (parseClientType (exField ''id'' ''GraphQLID'' True False) ''User''
                          \<lparr>store = [], enumTypes = []\<rparr>)) \<and>
   fst (parseClientType (exField ''posts'' ''Post'' True True) ''User'' \<lparr>store = [], enumTypes = []\<rparr>)
     = Relation ''Post''"
  using parseClientType_concrete [of "exField ''id'' ''GraphQLID'' True False" "''User''"
          "\<lparr>store = [], enumTypes = []\<rparr>"]
        parseClientType_concrete [of "exField ''posts'' ''Post'' True True" "''User''"
          "\<lparr>store = [], enumTypes = []\<rparr>"]
  by (simp add: exField_def concreteTypeIdentifiers_def)

text \<open>
  Claim C4 as stated fails at the type identifier \<^verbatim>\<open>'ID'\<close>: the label of the switch is
  \<^verbatim>\<open>'GraphQLID'\<close>, so \<^verbatim>\<open>'ID'\<close> takes the default branch and comes out as a relation marker.
\<close>

theorem parseClientType_ID_counterexample:
  "fst (parseClientType (exField ''id'' ''ID'' True False) ''User'' \<lparr>store = [], enumTypes = []\<rparr>)
     = Relation ''ID'' \<and>
   \<not> isConcreteType
       (fst (parseClientType (exField ''id'' ''ID'' True False) ''User'' \<lparr>store = [], enumTypes = []\<rparr>))"
  by (simp add: parseClientType_def exField_def)

section \<open>Identity of enum types\<close>

lemma parseClientType_cached:
  "typeIdentifier f = ''Enum'' \<Longrightarrow> map_of (enumTypes s) (m @ ''_'' @ fieldName f) = Some r \<Longrightarrow>
     parseClientType f m s = (GraphQLEnumType r, s)"
  by (simp add: parseClientType_def)

lemma parseClientType_keeps_cache:
  "map_of (enumTypes s) k = Some r \<Longrightarrow> map_of (enumTypes (snd (parseClientType f m s))) k = Some r"
  by (auto simp: parseClientType_def newGraphQLEnumType_def Let_def update_conv'
           split: option.splits prod.splits)

lemma parseAll_keeps_cache:
  "map_of (enumTypes s) k = Some r \<Longrightarrow> map_of (enumTypes (parseAll cs s)) k = Some r"
  by (induction cs s rule: parseAll.induct) (auto simp: parseClientType_keeps_cache)

lemma parseClientType_caches:
  "typeIdentifier f = ''Enum'' \<Longrightarrow>
     \<exists>r. fst (parseClientType f m s) = GraphQLEnumType r \<and>
         map_of (enumTypes (snd (parseClientType f m s))) (m @ ''_'' @ fieldName f) = Some r"
  by (auto simp: parseClientType_def newGraphQLEnumType_def Let_def update_conv'
           split: option.splits prod.splits)

text \<open>
  Claim C9, as amended. Inside one call of \<^verbatim>\<open>createTypes\<close>, two requests for the enum type
  of the same key \<^verbatim>\<open>${modelName}_${fieldName}\<close> return the same enum object, whatever other
  requests come in between; the first request of a call, whose cache is still empty,
  constructs a new enum object, different from every object constructed before.
\<close>

theorem parseClientType_same_instance:
  assumes "typeIdentifier f = ''Enum''" and "typeIdentifier g = ''Enum''"
    and "m @ ''_'' @ fieldName f = m' @ ''_'' @ fieldName g"
  shows "fst (parseClientType g m' (parseAll calls (snd (parseClientType f m s))))
           = fst (parseClientType f m s) \<and>
         fst (parseClientType f m \<lparr>store = st, enumTypes = []\<rparr>) = GraphQLEnumType (length st)"
proof -
  from parseClientType_caches [OF assms(1)] obtain r where
    r: "fst (parseClientType f m s) = GraphQLEnumType r"
       "map_of (enumTypes (snd (parseClientType f m s))) (m @ ''_'' @ fieldName f) = Some r"
    by blast
  from r(2) have "map_of (enumTypes (parseAll calls (snd (parseClientType f m s))))
                    (m' @ ''_'' @ fieldName g) = Some r"
    using assms(3) parseAll_keeps_cache by metis
  with assms(2) r(1) have "fst (parseClientType g m' (parseAll calls (snd (parseClientType f m s))))
           = fst (parseClientType f m s)"
    by (simp add: parseClientType_cached)
  moreover have "fst (parseClientType f m \<lparr>store = st, enumTypes = []\<rparr>) = GraphQLEnumType (length st)"
    using assms(1) by (simp add: parseClientType_def newGraphQLEnumType_def Let_def)
  ultimately show ?thesis by simp
qed

theorem parseClientType_same_instance_witness:
  "fst (parseClientType ((exField ''status'' ''Enum'' False False)\<lparr>enumValues := [''DRAFT'']\<rparr>) ''Post''
         (parseAll [(exField ''title'' ''String'' False False, ''Post''),
                    ((exField ''kind'' ''Enum'' False False)\<lparr>enumValues := [''NOTE'']\<rparr>, ''Post'')]
            (snd (parseClientType
                    ((exField ''status'' ''Enum'' True False)\<lparr>enumValues := [''DRAFT'']\<rparr>) ''Post''
                    \<lparr>store = [], enumTypes = []\<rparr>))))
     = GraphQLEnumType 0 \<and>
   fst (parseClientType ((exField ''status'' ''Enum'' True False)\<lparr>enumValues := [''DRAFT'']\<rparr>) ''Post''
          \<lparr>store = [\<lparr>enumName = ''Post_status'', enumVals = [(''DRAFT'', ''DRAFT'')]\<rparr>],
           enumTypes = []\<rparr>)
     = GraphQLEnumType 1"
  using parseClientType_same_instance
          [of "(exField ''status'' ''Enum'' True False)\<lparr>enumValues := [''DRAFT'']\<rparr>"
              "(exField ''status'' ''Enum'' False False)\<lparr>enumValues := [''DRAFT'']\<rparr>"
              "''Post''" "''Post''"
              "[(exField ''title'' ''String'' False False, ''Post''),
                ((exField ''kind'' ''Enum'' False False)\<lparr>enumValues := [''NOTE'']\<rparr>, ''Post'')]"
              "\<lparr>store = [], enumTypes = []\<rparr>"
              "[\<lparr>enumName = ''Post_status'', enumVals = [(''DRAFT'', ''DRAFT'')]\<rparr>]"]
  by (simp add: exField_def parseClientType_def newGraphQLEnumType_def Let_def)

text \<open>
  Claim C9 as stated fails across calls: compiling the blog schema twice, the second call
  starting from the store the first one left, gives the field \<^verbatim>\<open>status\<close> of \<^verbatim>\<open>Post\<close> the enum
  object 1 the first time and the enum object 4 the second time.
\<close>

theorem createTypes_enum_identity_counterexample:
  "objectFieldType (createTypes exIsScalar [exUser, exPost] SIMPLE []) ''Post'' ''status''
     = Some (GraphQLNonNull (GraphQLEnumType 1)) \<and>
   objectFieldType
     (createTypes exIsScalar [exUser, exPost] SIMPLE
        (storeAfter (createTypes exIsScalar [exUser, exPost] SIMPLE [])))
     ''Post'' ''status''
     = Some (GraphQLNonNull (GraphQLEnumType 4))"
  by code_simp

section \<open>Sign-in\<close>

text \<open>
  Claim C3. Let the backend answer the listing of users with \<open>allUsers\<close>. If no user has
  the supplied email, the mutation rejects with the message that there is no user with
  that email. Otherwise let \<open>u\<close> be the user the mutation picks, the first one in the list
  with that email: if the password comparison for \<open>u\<close> answers true, the mutation resolves
  to the token the backend issues for \<open>u\<close> and the viewer with the id of \<open>u\<close>; if it answers
  false, the mutation rejects with the message that the password is incorrect.
\<close>

theorem signin_outcomes:
  assumes "NO_PERMISSION_CHECK_allNodesByType backend ''User'' = Resolved allUsers"
  shows "((\<forall>u \<in> set allUsers. getProp u ''email'' \<noteq> JSString email) \<longrightarrow>
            mutateAndGetPayload backend email password
              = Rejected (Rejection (''no user with the email '' @ [CHR 0x27] @ email @ [CHR 0x27]))) \<and>
         (find (\<lambda>nd. getProp nd ''email'' = JSString email) allUsers = Some u \<longrightarrow>
            compareHashAsync backend password (getProp u ''password'') = Resolved True \<longrightarrow>
            mutateAndGetPayload backend email password
              = Resolved \<lparr>token = tokenForUser backend u, viewer_id = getProp u ''id''\<rparr>) \<and>
         (find (\<lambda>nd. getProp nd ''email'' = JSString email) allUsers = Some u \<longrightarrow>
            compareHashAsync backend password (getProp u ''password'') = Resolved False \<longrightarrow>
            mutateAndGetPayload backend email password
              = Rejected (Rejection (''incorrect password for email '' @ [CHR 0x27] @ email @
                                      [CHR 0x27])))"
proof -
  have none: "filter (\<lambda>nd. getProp nd ''email'' = JSString email) allUsers = []"
    if "\<forall>u \<in> set allUsers. getProp u ''email'' \<noteq> JSString email"
    using that by (simp add: filter_empty_conv)
  have some: "\<exists>r. filter (\<lambda>nd. getProp nd ''email'' = JSString email) allUsers = u # r"
    if "find (\<lambda>nd. getProp nd ''email'' = JSString email) allUsers = Some u"
    using that by (induction allUsers) (auto split: if_splits)
  show ?thesis
    using assms none some by (auto simp: mutateAndGetPayload_def)
qed


theorem signin_outcomes_witness:
  "mutateAndGetPayload exBackend ''x@y.com'' ''P''
     = Rejected (Rejection (''no user with the email '' @ [CHR 0x27] @ ''x@y.com'' @ [CHR 0x27])) \<and>
   mutateAndGetPayload exBackend ''a@b.com'' ''P''
     = Resolved \<lparr>token = ''token-u1'', viewer_id = JSString ''u1''\<rparr> \<and>
   mutateAndGetPayload exBackend ''a@b.com'' ''Q''
     = Rejected (Rejection (''incorrect password for email '' @ [CHR 0x27] @ ''a@b.com'' @ [CHR 0x27]))"
proof -
  have users: "NO_PERMISSION_CHECK_allNodesByType exBackend ''User'' = Resolved exUsers"
    by (simp add: exBackend_def)
  have unknown: "\<forall>u \<in> set exUsers. getProp u ''email'' \<noteq> JSString ''x@y.com''"
    by (simp add: exUsers_def getProp_def)
  have known: "find (\<lambda>nd. getProp nd ''email'' = JSString ''a@b.com'') exUsers = Some (hd exUsers)"
    by (simp add: exUsers_def getProp_def)
  have right: "compareHashAsync exBackend ''P'' (getProp (hd exUsers) ''password'') = Resolved True"
    by (simp add: exBackend_def exUsers_def getProp_def)
  have wrong: "compareHashAsync exBackend ''Q'' (getProp (hd exUsers) ''password'') = Resolved False"
    by (simp add: exBackend_def exUsers_def getProp_def)
  have tok: "tokenForUser exBackend (hd exUsers) = ''token-u1''" "getProp (hd exUsers) ''id'' = JSString ''u1''"
    by (simp_all add: exBackend_def exUsers_def getProp_def)
  show ?thesis
    using signin_outcomes [OF users, where email = "''x@y.com''" and u = "hd exUsers" and password = "''P''"]
          signin_outcomes [OF users, where email = "''a@b.com''" and u = "hd exUsers" and password = "''P''"]
          signin_outcomes [OF users, where email = "''a@b.com''" and u = "hd exUsers" and password = "''Q''"]
          unknown known right wrong tok
    by simp
qed


section \<open>Rejected backend calls\<close>

lemma find_filter_head:
  "find P xs = Some u \<Longrightarrow> \<exists>r. filter P xs = u # r"
  by (induction xs) (auto split: if_splits)

text \<open>
  Claim C5, as amended. When the backend's list-related-nodes call rejects, the resolver
  of a one-to-many field prints the error and resolves with \<^verbatim>\<open>undefined\<close>: it does not
  reject, and it yields no connection at all. On the other paths the rejection of a
  backend call is the outcome of the resolver: the fetch of a one-to-one field, the
  listing of the root collection query, and both backend calls of the sign-in mutation,
  the listing of the users and the password comparison for the user the mutation picks
  (the first listed user with the supplied email, wherever it stands in the list).
\<close>

theorem backend_rejections:
  "(map_of allClientTypes ti = Some b \<longrightarrow>
      allNodesByRelation backend m (getProp ob ''id'') fn a (clientSchema b) = Rejected e \<longrightarrow>
      resolveRelationList backend conv allClientTypes m fn ti ob a = (Resolved None, [e])) \<and>
   (map_of allClientTypes ti = Some b \<longrightarrow> truthy (getProp ob (fn @ ''Id'')) \<longrightarrow>
      node backend ti (getProp ob (fn @ ''Id'')) (clientSchema b) = Rejected e \<longrightarrow>
      resolveRelationOne backend allClientTypes fn ti ob = Rejected e) \<and>
   (map_of allClientTypes m = Some b \<longrightarrow>
      allNodesByType backend m a (clientSchema b) = Rejected e \<longrightarrow>
      resolveAllNodes backend conv allClientTypes schemaType m a = Rejected e) \<and>
   (NO_PERMISSION_CHECK_allNodesByType backend ''User'' = Rejected e \<longrightarrow>
      mutateAndGetPayload backend email password = Rejected e) \<and>
   (NO_PERMISSION_CHECK_allNodesByType backend ''User'' = Resolved allUsers \<longrightarrow>
      find (\<lambda>nd. getProp nd ''email'' = JSString email) allUsers = Some u \<longrightarrow>
      compareHashAsync backend password (getProp u ''password'') = Rejected e \<longrightarrow>
      mutateAndGetPayload backend email password = Rejected e)"
proof -
  have hash: "mutateAndGetPayload backend email password = Rejected e"
    if "NO_PERMISSION_CHECK_allNodesByType backend ''User'' = Resolved allUsers"
       "find (\<lambda>nd. getProp nd ''email'' = JSString email) allUsers = Some u"
       "compareHashAsync backend password (getProp u ''password'') = Rejected e"
  proof -
    from find_filter_head [OF that(2)] obtain r where
      "filter (\<lambda>nd. getProp nd ''email'' = JSString email) allUsers = u # r"
      by (elim exE)
    with that(1,3) show ?thesis
      by (simp add: mutateAndGetPayload_def)
  qed
  show ?thesis
    using hash
    by (simp add: resolveRelationList_def resolveRelationOne_def resolveAllNodes_def
          mutateAndGetPayload_def)
qed

theorem backend_rejections_witness:
  "resolveRelationList exDownBackend exConv exTypes ''User'' ''posts'' ''Post'' (hd exUsers) exNoArgs
     = (Resolved None, [BackendFailure ''down'']) \<and>
   resolveRelationOne exDownBackend exTypes ''author'' ''User'' [(''authorId'', JSString ''u1'')]
     = Rejected (BackendFailure ''down'') \<and>
   resolveAllNodes exDownBackend exConv exTypes SIMPLE ''Post'' exNoArgs
     = Rejected (BackendFailure ''down'') \<and>
   mutateAndGetPayload exDownBackend ''a@b.com'' ''P'' = Rejected (BackendFailure ''down'') \<and>
   mutateAndGetPayload exHashDownBackend ''c@d.com'' ''Q'' = Rejected (BackendFailure ''down'')"
proof -
  have post: "map_of exTypes ''Post'' = Some (the (map_of exTypes ''Post''))"
    by code_simp
  have user: "map_of exTypes ''User'' = Some (the (map_of exTypes ''User''))"
    by code_simp
  have key: "truthy (getProp [(''authorId'', JSString ''u1'')] (''author'' @ ''Id''))"
    by (simp add: getProp_def)
  have users: "NO_PERMISSION_CHECK_allNodesByType exHashDownBackend ''User'' = Resolved exUsers"
    by (simp add: exHashDownBackend_def exBackend_def)
  have mail: "find (\<lambda>nd. getProp nd ''email'' = JSString ''c@d.com'') exUsers = Some (exUsers ! 1)"
    by (simp add: exUsers_def getProp_def)
  have hash: "compareHashAsync exHashDownBackend ''Q'' (getProp (exUsers ! 1) ''password'')
                = Rejected (BackendFailure ''down'')"
    by (simp add: exHashDownBackend_def)
  have r1: "resolveRelationList exDownBackend exConv exTypes ''User'' ''posts'' ''Post'' (hd exUsers)
              exNoArgs = (Resolved None, [BackendFailure ''down''])"
    using backend_rejections [where allClientTypes = exTypes and ti = "''Post''"
            and b = "the (map_of exTypes ''Post'')" and backend = exDownBackend and m = "''User''"
            and ob = "hd exUsers" and fn = "''posts''" and a = exNoArgs and conv = exConv
            and e = "BackendFailure ''down''"] post
    by (simp add: exDownBackend_def)
  have r2: "resolveRelationOne exDownBackend exTypes ''author'' ''User'' [(''authorId'', JSString ''u1'')]
              = Rejected (BackendFailure ''down'')"
    using backend_rejections [where allClientTypes = exTypes and ti = "''User''"
            and b = "the (map_of exTypes ''User'')" and backend = exDownBackend
            and ob = "[(''authorId'', JSString ''u1'')]" and fn = "''author''"
            and e = "BackendFailure ''down''"] user key
    by (simp add: exDownBackend_def)
  have r3: "resolveAllNodes exDownBackend exConv exTypes SIMPLE ''Post'' exNoArgs
              = Rejected (BackendFailure ''down'')"
    using backend_rejections [where allClientTypes = exTypes and b = "the (map_of exTypes ''Post'')"
            and backend = exDownBackend and m = "''Post''" and a = exNoArgs and conv = exConv
            and schemaType = SIMPLE and e = "BackendFailure ''down''"] post
    by (simp add: exDownBackend_def)
  have r4: "mutateAndGetPayload exDownBackend ''a@b.com'' ''P'' = Rejected (BackendFailure ''down'')"
    using backend_rejections [where backend = exDownBackend and e = "BackendFailure ''down''"
            and email = "''a@b.com''" and password = "''P''"]
    by (simp add: exDownBackend_def)
  have r5: "mutateAndGetPayload exHashDownBackend ''c@d.com'' ''Q'' = Rejected (BackendFailure ''down'')"
    using backend_rejections [where backend = exHashDownBackend and e = "BackendFailure ''down''"
            and email = "''c@d.com''" and password = "''Q''" and u = "exUsers ! 1"
            and allUsers = exUsers] users mail hash
    by simp
  show ?thesis using r1 r2 r3 r4 r5 by simp
qed


text \<open>
  Claim C5 as stated fails in what the one-to-many resolver yields: with the backend down
  it resolves with \<^verbatim>\<open>undefined\<close>, which is not an empty connection.
\<close>

theorem relation_list_rejection_counterexample:
  "fst (resolveRelationList exDownBackend exConv exTypes ''User'' ''posts'' ''Post'' (hd exUsers) exNoArgs)
     = Resolved None \<and>
   fst (resolveRelationList exDownBackend exConv exTypes ''User'' ''posts'' ''Post'' (hd exUsers) exNoArgs)
     \<noteq> Resolved (Some \<lparr>edges = [],
                        pageInfo = \<lparr>startCursor = None, endCursor = None,
                                    hasPreviousPage = False, hasNextPage = False\<rparr>,
                        totalCount = 0\<rparr>)"
  by code_simp



section \<open>The root collection query in simple mode\<close>

lemma js_slice_nonneg:
  assumes "0 \<le> s" and "0 \<le> t"
  shows "js_slice xs s (s + t) = take (nat t) (drop (nat s) xs)"
proof (cases "s \<le> int (length xs)")
  case True
  with assms have "js_slice xs s (s + t) = take (nat (min (s + t) (int (length xs)) - s)) (drop (nat s) xs)"
    by (simp add: js_slice_def Let_def min_def)
  also have "\<dots> = take (nat t) (drop (nat s) xs)"
  proof (cases "s + t \<le> int (length xs)")
    case True
    then show ?thesis by (simp add: min_def)
  next
    case False
    with assms \<open>s \<le> int (length xs)\<close> have "length (drop (nat s) xs) \<le> nat t"
      by simp
    with False show ?thesis by (simp add: min_def nat_diff_distrib')
  qed
  finally show ?thesis .
next
  case False
  with assms show ?thesis
    by (simp add: js_slice_def Let_def min_def)
qed

lemma js_slice_range:
  assumes "0 \<le> s" and "s \<le> e"
  shows "js_slice xs s e = take (nat (e - s)) (drop (nat s) xs)"
  using js_slice_nonneg [of s "e - s" xs] assms by simp

lemma sliceStep_nonneg:
  assumes "case skip a of None \<Rightarrow> True | Some s \<Rightarrow> 0 \<le> s"
      and "case take_arg a of None \<Rightarrow> True | Some t \<Rightarrow> 0 \<le> t"
  shows "sliceStep a array =
           (case take_arg a of
              None \<Rightarrow> drop (case skip a of None \<Rightarrow> 0 | Some s \<Rightarrow> nat s) array
            | Some t \<Rightarrow>
                if t = 0 then drop (case skip a of None \<Rightarrow> 0 | Some s \<Rightarrow> nat s) array
                else take (nat t) (drop (case skip a of None \<Rightarrow> 0 | Some s \<Rightarrow> nat s) array))"
proof -
  define s where "s = (case skip a of None \<Rightarrow> 0 | Some n \<Rightarrow> if n = 0 then 0 else n)"
  define t where "t = (case take_arg a of None \<Rightarrow> int (length array)
                       | Some n \<Rightarrow> if n = 0 then int (length array) else n)"
  have s0: "0 \<le> s" and t0: "0 \<le> t"
    using assms by (auto simp: s_def t_def split: option.splits)
  have ns: "nat s = (case skip a of None \<Rightarrow> 0 | Some n \<Rightarrow> nat n)"
    by (auto simp: s_def split: option.splits)
  have "sliceStep a array = js_slice array s (s + t)"
    by (simp add: sliceStep_def s_def t_def Let_def)
  also have "\<dots> = take (nat t) (drop (nat s) array)"
    using js_slice_range [of s "s + t" array] s0 t0 by simp
  finally have eq: "sliceStep a array = take (nat t) (drop (nat s) array)" .
  show ?thesis
    unfolding eq ns [symmetric]
    by (auto simp: t_def split: option.splits)
qed

lemma resolveAllNodes_simple:
  assumes "map_of allClientTypes m = Some b"
      and "allNodesByType backend m a (clientSchema b) = Resolved array0"
      and "sortStep a (filterStep conv (clientSchema b) a array0) = Inr array"
  shows "resolveAllNodes backend conv allClientTypes SIMPLE m a = Resolved (AsList (sliceStep a array))"
  using assms by (simp add: resolveAllNodes_def)

text \<open>
  Claim C7, as amended. In simple output mode, when the backend has answered and the
  filter and sort steps have produced the record sequence \<open>array\<close>, the resolver returns
  the part of \<open>array\<close> that starts at index \<open>skip\<close> and has length \<open>take\<close> (cut at the end of
  \<open>array\<close>), for a \<open>skip\<close> that is not negative and a \<open>take\<close> of at least 1; an omitted
  \<open>skip\<close> is 0, and with an omitted \<open>take\<close> all records from \<open>skip\<close> onward are returned.
\<close>

theorem simple_mode_slice:
  assumes "map_of allClientTypes m = Some b"
      and "allNodesByType backend m a (clientSchema b) = Resolved array0"
      and "sortStep a (filterStep conv (clientSchema b) a array0) = Inr array"
      and "case skip a of None \<Rightarrow> True | Some s \<Rightarrow> 0 \<le> s"
      and "case take_arg a of None \<Rightarrow> True | Some t \<Rightarrow> 1 \<le> t"
  shows "resolveAllNodes backend conv allClientTypes SIMPLE m a =
           Resolved (AsList
             (case take_arg a of
                None \<Rightarrow> drop (case skip a of None \<Rightarrow> 0 | Some s \<Rightarrow> nat s) array
              | Some t \<Rightarrow> take (nat t) (drop (case skip a of None \<Rightarrow> 0 | Some s \<Rightarrow> nat s) array)))"
proof -
  from assms(5) have "case take_arg a of None \<Rightarrow> True | Some t \<Rightarrow> 0 \<le> t"
    by (auto split: option.splits)
  from sliceStep_nonneg [OF assms(4) this, of array] assms(5)
  have "sliceStep a array =
          (case take_arg a of
             None \<Rightarrow> drop (case skip a of None \<Rightarrow> 0 | Some s \<Rightarrow> nat s) array
           | Some t \<Rightarrow> take (nat t) (drop (case skip a of None \<Rightarrow> 0 | Some s \<Rightarrow> nat s) array))"
    by (auto split: option.splits)
  with resolveAllNodes_simple [OF assms(1-3)] show ?thesis by simp
qed

lemma ex_posts_listed:
  "map_of exTypes ''Post'' = Some (the (map_of exTypes ''Post''))"
  by code_simp

theorem simple_mode_slice_witness:
  "resolveAllNodes exBackend exConv exTypes SIMPLE ''Post'' (exNoArgs\<lparr>skip := Some 2, take_arg := Some 2\<rparr>)
     = Resolved (AsList [exPosts ! 2, exPosts ! 3]) \<and>
   resolveAllNodes exBackend exConv exTypes SIMPLE ''Post'' (exNoArgs\<lparr>skip := Some 3\<rparr>)
     = Resolved (AsList [exPosts ! 3, exPosts ! 4]) \<and>
   resolveAllNodes exBackend exConv exTypes SIMPLE ''Post'' (exNoArgs\<lparr>take_arg := Some 1\<rparr>)
     = Resolved (AsList [exPosts ! 0])"
proof -
  have b: "allNodesByType exBackend ''Post'' a (clientSchema (the (map_of exTypes ''Post''))) = Resolved exPosts"
    for a by (simp add: exBackend_def)
  have s: "sortStep a (filterStep exConv (clientSchema (the (map_of exTypes ''Post''))) a exPosts) = Inr exPosts"
    if "orderBy a = None" "filter_arg a = None" for a
    using that by (simp add: sortStep_def filterStep_def)
  have r1: "resolveAllNodes exBackend exConv exTypes SIMPLE ''Post'' (exNoArgs\<lparr>skip := Some 2, take_arg := Some 2\<rparr>)
     = Resolved (AsList [exPosts ! 2, exPosts ! 3])"
    using simple_mode_slice [OF ex_posts_listed b s, of "exNoArgs\<lparr>skip := Some 2, take_arg := Some 2\<rparr>"]
    by (simp add: exNoArgs_def exPosts_def)
  have r2: "resolveAllNodes exBackend exConv exTypes SIMPLE ''Post'' (exNoArgs\<lparr>skip := Some 3\<rparr>)
     = Resolved (AsList [exPosts ! 3, exPosts ! 4])"
    using simple_mode_slice [OF ex_posts_listed b s, of "exNoArgs\<lparr>skip := Some 3\<rparr>"]
    by (simp add: exNoArgs_def exPosts_def)
  have r3: "resolveAllNodes exBackend exConv exTypes SIMPLE ''Post'' (exNoArgs\<lparr>take_arg := Some 1\<rparr>)
     = Resolved (AsList [exPosts ! 0])"
    using simple_mode_slice [OF ex_posts_listed b s, of "exNoArgs\<lparr>take_arg := Some 1\<rparr>"]
    by (simp add: exNoArgs_def exPosts_def)
  show ?thesis using r1 r2 r3 by simp
qed

text \<open>
  Claim C7 as stated fails for a \<open>take\<close> of 0: over the five posts, \<open>skip = 2\<close> and
  \<open>take = 0\<close> return the three records from index 2 onward, not a slice of length 0.
\<close>

theorem simple_mode_take_zero_counterexample:
  "resolveAllNodes exBackend exConv exTypes SIMPLE ''Post'' (exNoArgs\<lparr>skip := Some 2, take_arg := Some 0\<rparr>)
     = Resolved (AsList [exPosts ! 2, exPosts ! 3, exPosts ! 4]) \<and>
   resolveAllNodes exBackend exConv exTypes SIMPLE ''Post'' (exNoArgs\<lparr>skip := Some 2, take_arg := Some 0\<rparr>)
     \<noteq> Resolved (AsList (take 0 (drop 2 exPosts)))"
  by code_simp


text \<open>
  Claim C10. In simple output mode a \<open>take\<close> of 0, like an absent \<open>take\<close>, is replaced by
  the length of the record sequence: the resolver returns all records from \<open>skip\<close> onward,
  which is not the empty list as long as there are records from \<open>skip\<close> onward, and the
  slice is the one computed for an omitted \<open>take\<close>.
\<close>

theorem falsy_take_returns_rest:
  assumes "map_of allClientTypes m = Some b"
      and "allNodesByType backend m a (clientSchema b) = Resolved array0"
      and "sortStep a (filterStep conv (clientSchema b) a array0) = Inr array"
      and "case skip a of None \<Rightarrow> True | Some s \<Rightarrow> 0 \<le> s"
      and "take_arg a = Some 0 \<or> take_arg a = None"
  shows "resolveAllNodes backend conv allClientTypes SIMPLE m a =
           Resolved (AsList (drop (case skip a of None \<Rightarrow> 0 | Some s \<Rightarrow> nat s) array)) \<and>
         ((case skip a of None \<Rightarrow> 0 | Some s \<Rightarrow> nat s) < length array \<longrightarrow>
            resolveAllNodes backend conv allClientTypes SIMPLE m a \<noteq> Resolved (AsList [])) \<and>
         sliceStep (a\<lparr>take_arg := Some 0\<rparr>) array = sliceStep (a\<lparr>take_arg := None\<rparr>) array"
proof -
  from assms(5) have "case take_arg a of None \<Rightarrow> True | Some t \<Rightarrow> 0 \<le> t"
    by (auto split: option.splits)
  from sliceStep_nonneg [OF assms(4) this, of array] assms(5)
  have "sliceStep a array = drop (case skip a of None \<Rightarrow> 0 | Some s \<Rightarrow> nat s) array"
    by (auto split: option.splits)
  with resolveAllNodes_simple [OF assms(1-3)]
  have "resolveAllNodes backend conv allClientTypes SIMPLE m a =
           Resolved (AsList (drop (case skip a of None \<Rightarrow> 0 | Some s \<Rightarrow> nat s) array))"
    by simp
  moreover have "sliceStep (a\<lparr>take_arg := Some 0\<rparr>) array = sliceStep (a\<lparr>take_arg := None\<rparr>) array"
    by (simp add: sliceStep_def)
  ultimately show ?thesis by auto
qed

theorem falsy_take_returns_rest_witness:
  "resolveAllNodes exBackend exConv exTypes SIMPLE ''Post'' (exNoArgs\<lparr>skip := Some 3, take_arg := Some 0\<rparr>)
     = Resolved (AsList [exPosts ! 3, exPosts ! 4]) \<and>
   resolveAllNodes exBackend exConv exTypes SIMPLE ''Post'' (exNoArgs\<lparr>skip := Some 3, take_arg := Some 0\<rparr>)
     \<noteq> Resolved (AsList []) \<and>
   sliceStep (exNoArgs\<lparr>skip := Some 3, take_arg := Some 0\<rparr>) exPosts
     = sliceStep (exNoArgs\<lparr>skip := Some 3, take_arg := None\<rparr>) exPosts"
proof -
  have b: "allNodesByType exBackend ''Post'' a (clientSchema (the (map_of exTypes ''Post''))) = Resolved exPosts"
    for a by (simp add: exBackend_def)
  have s: "sortStep a (filterStep exConv (clientSchema (the (map_of exTypes ''Post''))) a exPosts) = Inr exPosts"
    if "orderBy a = None" "filter_arg a = None" for a
    using that by (simp add: sortStep_def filterStep_def)
  show ?thesis
    using falsy_take_returns_rest [OF ex_posts_listed b s, of "exNoArgs\<lparr>skip := Some 3, take_arg := Some 0\<rparr>"]
    by (simp add: exNoArgs_def exPosts_def)
qed


section \<open>Sorting by a field whose name contains a direction suffix\<close>

text \<open>
  Claim C6 at a failing input. The sort-order enum of the book schema offers
  \<^verbatim>\<open>title_ASCII_ASC\<close>. For that value the resolver finds the direction \<^verbatim>\<open>ASC\<close> but cuts the
  field name at the first \<^verbatim>\<open>_ASC\<close> and sorts by \<^verbatim>\<open>title\<close>: the two books come back with
  \<^verbatim>\<open>title_ASCII\<close> decreasing.
\<close>

theorem orderBy_suffix_in_field_name:
  "map fst (enumVals (storeAfter (createTypes exIsScalar [exBook] SIMPLE []) ! 0))
     = [''id_ASC'', ''id_DESC'', ''title_ASC'', ''title_DESC'',
        ''title_ASCII_ASC'', ''title_ASCII_DESC''] \<and>
   orderOf ''title_ASCII_ASC'' = ''ASC'' \<and>
   orderFieldName ''title_ASCII_ASC'' = ''title'' \<and>
   orderOf ''title_ASCII_DESC'' = ''DESC'' \<and>
   orderFieldName ''title_ASCII_DESC'' = ''title_ASCII'' \<and>
   resolveAllNodes exBookBackend exConv exBookTypes SIMPLE ''Book''
       (exNoArgs\<lparr>orderBy := Some ''title_ASCII_ASC''\<rparr>)
     = Resolved (AsList [exBooks ! 1, exBooks ! 0]) \<and>
   getProp (exBooks ! 1) ''title_ASCII'' = JSString ''bbb'' \<and>
   getProp (exBooks ! 0) ''title_ASCII'' = JSString ''aaa''"
  by code_simp



section \<open>Filtering a one-to-many relation\<close>

lemma js_slice_all: "js_slice xs 0 (int (length xs)) = xs"
  by (simp add: js_slice_def)

lemma edgeNode_numbered:
  "map edgeNode (map (\<lambda>(i, v). \<lparr>cursor = c + int i, edgeNode = v\<rparr>) (zip [0 ..< length xs] xs)) = xs"
proof -
  have "map edgeNode (map (\<lambda>(i, v). \<lparr>cursor = c + int i, edgeNode = v\<rparr>) (zip [0 ..< length xs] xs))
          = map snd (zip [0 ..< length xs] xs)"
    by (simp add: case_prod_unfold comp_def)
  then show ?thesis by (simp add: map_snd_zip)
qed

lemma connectionFromArray_no_cursor:
  assumes "after a = None" and "before a = None" and "first_arg a = None" and "last_arg a = None"
  shows "map edgeNode (fst (connectionFromArray array a)) = array"
  using assms edgeNode_numbered [of 0 array]
  by (simp add: connectionFromArray_def js_slice_all Let_def)

lemma filterStep_matching:
  "filterStep conv cs a array =
     (case filter_arg a of
        None \<Rightarrow> array
      | Some fo \<Rightarrow>
          filter (\<lambda>x. \<forall>k \<in> set (map fst (conv fo cs)).
                        getProp (conv fo cs) k \<noteq> JSNull \<and> getProp (conv fo cs) k \<noteq> JSUndefined \<longrightarrow>
                        getProp x k = getProp (conv fo cs) k)
            array)"
  by (auto simp: filterStep_def getFilterPairsFromFilterArgument_def list_all_iff
           split: option.splits intro!: filter_cong)


text \<open>
  Claim C2, as amended. Let the backend answer the list-related-nodes call with \<open>array\<close>,
  and let \<open>matching\<close> be the records of \<open>array\<close>, in their order, that agree with every
  entry of the decoded filter whose value is neither \<^verbatim>\<open>null\<close> nor \<^verbatim>\<open>undefined\<close> (all of
  \<open>array\<close> without a filter argument). The resolver resolves to a connection whose total
  count is the number of matching records and whose edges are the page of the matching
  records that the cursor arguments select; without cursor arguments the edges are
  exactly the matching records in their original order.
\<close>

theorem relation_list_filter:
  assumes "map_of allClientTypes ti = Some b"
      and "allNodesByRelation backend m (getProp ob ''id'') fn a (clientSchema b) = Resolved array"
      and "matching =
             (case filter_arg a of
                None \<Rightarrow> array
              | Some fo \<Rightarrow>
                  filter (\<lambda>x. \<forall>k \<in> set (map fst (conv fo (clientSchema b))).
                                getProp (conv fo (clientSchema b)) k \<noteq> JSNull \<and>
                                getProp (conv fo (clientSchema b)) k \<noteq> JSUndefined \<longrightarrow>
                                getProp x k = getProp (conv fo (clientSchema b)) k)
                    array)"
  shows "\<exists>c. resolveRelationList backend conv allClientTypes m fn ti ob a = (Resolved (Some c), []) \<and>
             totalCount c = length matching \<and>
             edges c = fst (connectionFromArray matching a) \<and>
             (after a = None \<and> before a = None \<and> first_arg a = None \<and> last_arg a = None \<longrightarrow>
                map edgeNode (edges c) = matching)"
proof -
  have m: "filterStep conv (clientSchema b) a array = matching"
    unfolding assms(3) by (rule filterStep_matching)
  obtain es pinfo where cfa: "connectionFromArray matching a = (es, pinfo)"
    by (cases "connectionFromArray matching a")
  have "resolveRelationList backend conv allClientTypes m fn ti ob a
          = (Resolved (Some \<lparr>edges = es, pageInfo = pinfo, totalCount = length matching\<rparr>), [])"
    using assms(1,2) m cfa by (simp add: resolveRelationList_def)
  moreover have "map edgeNode es = matching"
    if "after a = None \<and> before a = None \<and> first_arg a = None \<and> last_arg a = None"
    using connectionFromArray_no_cursor [of a matching] that cfa by simp
  ultimately show ?thesis using cfa by simp
qed

theorem relation_list_filter_witness:
  "\<exists>c. resolveRelationList exBackend exConv exTypes ''User'' ''posts'' ''Post'' (hd exUsers)
          (exNoArgs\<lparr>filter_arg := Some [(''status'', JSString ''DRAFT''), (''title'', JSNull)]\<rparr>)
          = (Resolved (Some c), []) \<and>
        totalCount c = 3 \<and>
        map edgeNode (edges c) = [exPosts ! 0, exPosts ! 2, exPosts ! 4]"
proof -
  let ?a = "exNoArgs\<lparr>filter_arg := Some [(''status'', JSString ''DRAFT''), (''title'', JSNull)]\<rparr>"
  have t: "map_of exTypes ''Post'' = Some (the (map_of exTypes ''Post''))"
    by code_simp
  have b: "allNodesByRelation exBackend ''User'' (getProp (hd exUsers) ''id'') ''posts'' ?a
             (clientSchema (the (map_of exTypes ''Post''))) = Resolved exPosts"
    by (simp add: exBackend_def)
  have m: "[exPosts ! 0, exPosts ! 2, exPosts ! 4] =
             (case filter_arg ?a of
                None \<Rightarrow> exPosts
              | Some fo \<Rightarrow>
                  filter (\<lambda>x. \<forall>k \<in> set (map fst (exConv fo (clientSchema (the (map_of exTypes ''Post''))))).
                                getProp (exConv fo (clientSchema (the (map_of exTypes ''Post'')))) k \<noteq> JSNull \<and>
                                getProp (exConv fo (clientSchema (the (map_of exTypes ''Post'')))) k \<noteq> JSUndefined \<longrightarrow>
                                getProp x k = getProp (exConv fo (clientSchema (the (map_of exTypes ''Post'')))) k)
                    exPosts)"
    by (simp add: exConv_def exPosts_def getProp_def exNoArgs_def)
  have n: "after ?a = None \<and> before ?a = None \<and> first_arg ?a = None \<and> last_arg ?a = None"
    by (simp add: exNoArgs_def)
  from relation_list_filter [where allClientTypes = exTypes and ti = "''Post''"
            and b = "the (map_of exTypes ''Post'')" and backend = exBackend and m = "''User''"
            and ob = "hd exUsers" and fn = "''posts''" and a = ?a and array = exPosts
            and conv = exConv and matching = "[exPosts ! 0, exPosts ! 2, exPosts ! 4]", OF t b m]
  obtain c where
    "resolveRelationList exBackend exConv exTypes ''User'' ''posts'' ''Post'' (hd exUsers) ?a
       = (Resolved (Some c), [])"
    "totalCount c = length [exPosts ! 0, exPosts ! 2, exPosts ! 4]"
    "after ?a = None \<and> before ?a = None \<and> first_arg ?a = None \<and> last_arg ?a = None \<longrightarrow>
       map edgeNode (edges c) = [exPosts ! 0, exPosts ! 2, exPosts ! 4]"
    by (elim exE conjE)
  with n have "resolveRelationList exBackend exConv exTypes ''User'' ''posts'' ''Post'' (hd exUsers) ?a
                 = (Resolved (Some c), []) \<and>
               totalCount c = 3 \<and>
               map edgeNode (edges c) = [exPosts ! 0, exPosts ! 2, exPosts ! 4]"
    by simp
  then show ?thesis by (rule exI)
qed

text \<open>
  Claim C2 as stated fails when a cursor argument narrows the page. In the blog schema
  compiled in relay mode the field \<^verbatim>\<open>posts\<close> of \<^verbatim>\<open>User\<close> is a connection that takes the
  argument \<^verbatim>\<open>first\<close>; with three of the five posts matching the filter and \<^verbatim>\<open>first: 1\<close>, the
  total count is 3 and there is one edge.
\<close>

theorem relation_list_first_counterexample:
  "map_option type
     (map_of (fields_obj (objectType (the (map_of exRelayTypes ''User'')))) ''posts'')
     = Some (GraphQLNonNull (ConnectionType ''Post'')) \<and>
   map fst (queryFilterInputArguments (the (map_of exRelayTypes ''Post'')))
     = [''before'', ''after'', ''first'', ''last'', ''filter'', ''orderBy''] \<and>
   resolveRelationList exBackend exConv exRelayTypes ''User'' ''posts'' ''Post'' (hd exUsers)
     (exNoArgs\<lparr>filter_arg := Some [(''status'', JSString ''DRAFT'')], first_arg := Some 1\<rparr>)
     = (Resolved (Some \<lparr>edges = [\<lparr>cursor = 0, edgeNode = exPosts ! 0\<rparr>],
                         pageInfo = \<lparr>startCursor = Some 0, endCursor = Some 0,
                                     hasPreviousPage = False, hasNextPage = True\<rparr>,
                         totalCount = 3\<rparr>), []) \<and>
   filterStep exConv exPost
     (exNoArgs\<lparr>filter_arg := Some [(''status'', JSString ''DRAFT'')], first_arg := Some 1\<rparr>) exPosts
     = [exPosts ! 0, exPosts ! 2, exPosts ! 4]"
  by code_simp


section \<open>Objects built by mapArrayToObject and mergeObjects\<close>

lemma mapArrayToObject_keys:
  "fst ` set (fst (mapArrayToObject xs keyFn valFn ob s)) = fst ` set ob \<union> keyFn ` set xs"
proof (induction xs arbitrary: ob s)
  case Nil
  then show ?case by simp
next
  case (Cons x xs)
  obtain v s' where v: "valFn x s = (v, s')" by (cases "valFn x s")
  show ?case
    using Cons.IH [of "AList.update (keyFn x) v ob" s'] v
    by (auto simp: dom_update)
qed

lemma mapArrayToObject_untouched:
  "k \<notin> keyFn ` set xs \<Longrightarrow> map_of (fst (mapArrayToObject xs keyFn valFn ob s)) k = map_of ob k"
proof (induction xs arbitrary: ob s)
  case Nil
  then show ?case by simp
next
  case (Cons x xs)
  obtain v s' where v: "valFn x s = (v, s')" by (cases "valFn x s")
  from Cons.prems have "k \<noteq> keyFn x" "k \<notin> keyFn ` set xs" by auto
  then show ?case
    using Cons.IH [of "AList.update (keyFn x) v ob" s'] v
    by (simp add: update_conv')
qed

lemma mapArrayToObject_all:
  assumes "\<And>k v. map_of ob k = Some v \<Longrightarrow> P k v"
      and "\<And>x u. x \<in> set xs \<Longrightarrow> P (keyFn x) (fst (valFn x u))"
      and "map_of (fst (mapArrayToObject xs keyFn valFn ob s)) k = Some v"
  shows "P k v"
  using assms
proof (induction xs arbitrary: ob s)
  case Nil
  then show ?case by simp
next
  case (Cons x xs)
  obtain w s' where w: "valFn x s = (w, s')" by (cases "valFn x s")
  have pw: "P (keyFn x) w"
    using Cons.prems(2) [of x s] w by simp
  show ?case
  proof (rule Cons.IH [of "AList.update (keyFn x) w ob" s'])
    fix k' v'
    assume "map_of (AList.update (keyFn x) w ob) k' = Some v'"
    then show "P k' v'"
      using pw Cons.prems(1) by (auto simp: update_conv' split: if_splits)
  next
    fix y u
    assume "y \<in> set xs"
    then show "P (keyFn y) (fst (valFn y u))"
      using Cons.prems(2) by simp
  next
    show "map_of (fst (mapArrayToObject xs keyFn valFn (AList.update (keyFn x) w ob) s')) k = Some v"
      using Cons.prems(3) w by simp
  qed
qed

lemma mapArrayToObject_lookup:
  assumes "distinct (map keyFn xs)" and "x \<in> set xs"
  shows "\<exists>u. map_of (fst (mapArrayToObject xs keyFn valFn ob s)) (keyFn x) = Some (fst (valFn x u))"
  using assms
proof (induction xs arbitrary: ob s)
  case Nil
  then show ?case by simp
next
  case (Cons y ys)
  obtain w s' where w: "valFn y s = (w, s')" by (cases "valFn y s")
  show ?case
  proof (cases "x = y")
    case True
    with Cons.prems(1) have "keyFn x \<notin> keyFn ` set ys" by auto
    from mapArrayToObject_untouched [OF this, of valFn "AList.update (keyFn y) w ob" s']
    have "map_of (fst (mapArrayToObject (y # ys) keyFn valFn ob s)) (keyFn x) = Some (fst (valFn x s))"
      using w True by (simp add: update_conv')
    then show ?thesis by blast
  next
    case False
    with Cons.prems have "distinct (map keyFn ys)" "x \<in> set ys" by auto
    from Cons.IH [OF this, of "AList.update (keyFn y) w ob" s'] w
    show ?thesis by simp
  qed
qed

lemma mergeObjects_map_of:
  "map_of (mergeObjects a b) = map_of a ++ map_of (rev b)"
  unfolding mergeObjects_def
proof (induction b arbitrary: a)
  case Nil
  then show ?case by simp
next
  case (Cons p b)
  obtain k v where p: "p = (k, v)" by (cases p)
  have "map_of (foldl (\<lambda>ob (k, v). AList.update k v ob) a (p # b))
          = map_of (AList.update k v a) ++ map_of (rev b)"
    using Cons.IH [of "AList.update k v a"] p by simp
  also have "\<dots> = map_of a ++ map_of (rev (p # b))"
    by (simp add: p update_conv' fun_eq_iff map_add_def split: option.splits)
  finally show ?case .
qed

lemma mergeObjects_keys:
  "fst ` set (mergeObjects a b) = fst ` set a \<union> fst ` set b"
proof -
  have "dom (map_of (mergeObjects a b)) = dom (map_of a) \<union> dom (map_of (rev b))"
    by (simp add: mergeObjects_map_of Un_commute)
  then show ?thesis by (simp add: dom_map_of_conv_image_fst)
qed

lemma mergeObjects_left:
  "k \<notin> fst ` set b \<Longrightarrow> map_of (mergeObjects a b) k = map_of a k"
proof -
  assume "k \<notin> fst ` set b"
  then have "map_of (rev b) k = None"
    by (simp add: map_of_eq_None_iff)
  then show ?thesis
    by (simp add: mergeObjects_map_of map_add_def)
qed

lemma mergeObjects_entry:
  assumes "map_of (mergeObjects a b) k = Some v"
  shows "map_of a k = Some v \<or> (k, v) \<in> set b"
  using assms
  by (auto simp: mergeObjects_map_of map_add_def split: option.splits dest: map_of_SomeD)

lemma filterS_pure:
  assumes "\<And>x u. fst (p x u) = q x"
  shows "fst (filterS p xs s) = filter q xs"
proof (induction xs arbitrary: s)
  case Nil
  then show ?case by simp
next
  case (Cons x xs)
  obtain b s' where b: "p x s = (b, s')" by (cases "p x s")
  obtain ys s'' where ys: "filterS p xs s' = (ys, s'')" by (cases "filterS p xs s'")
  from assms [of x s] b have "b = q x" by simp
  moreover from Cons.IH [of s'] ys have "ys = filter q xs" by simp
  ultimately show ?case using b ys by simp
qed


section \<open>Input arguments\<close>

lemma parseClientType_isRelation:
  "isRelation (fst (parseClientType f m s)) = (typeIdentifier f \<notin> set concreteTypeIdentifiers)"
  by (auto simp: parseClientType_def concreteTypeIdentifiers_def newGraphQLEnumType_def Let_def
           split: option.splits prod.splits)

lemma parseClientType_isConcrete:
  "typeIdentifier f \<in> set concreteTypeIdentifiers \<Longrightarrow> isConcreteType (fst (parseClientType f m s))"
  by (auto simp: parseClientType_def concreteTypeIdentifiers_def newGraphQLEnumType_def Let_def
           split: option.splits prod.splits)

lemma parseClientType_marker:
  "typeIdentifier f \<notin> set concreteTypeIdentifiers \<Longrightarrow>
     fst (parseClientType f m s) = Relation (typeIdentifier f)"
  by (auto simp: parseClientType_def concreteTypeIdentifiers_def)

lemma parseClientType_not_NonNull: "\<not> isNonNull (fst (parseClientType f m s))"
  by (auto simp: parseClientType_def newGraphQLEnumType_def Let_def split: option.splits prod.splits)

lemma scalarFilterOf_pure:
  "fst (scalarFilterOf cs f s) = (typeIdentifier f \<in> set concreteTypeIdentifiers)"
  using parseClientType_isRelation [of f "modelName cs" s]
  by (simp add: scalarFilterOf_def case_prod_unfold)

lemma oneToOneFilterOf_pure:
  "fst (oneToOneFilterOf cs f s) = (typeIdentifier f \<notin> set concreteTypeIdentifiers \<and> \<not> isList f)"
  using parseClientType_isRelation [of f "modelName cs" s]
  by (simp add: oneToOneFilterOf_def case_prod_unfold)

lemma generateObjectMutationInputArguments_shape:
  assumes "\<And>x u. fst (scalarFilter x u) = qs x" and "\<And>x u. fst (oneToOneFilter x u) = qo x"
  obtains s1 and s3 :: TypeState where
          "fst (generateObjectMutationInputArguments cs scalarFilter oneToOneFilter ffo fio s) =
             mergeObjects
               (fst (mapArrayToObject (filter qs (fields_list cs)) fieldName
                       (\<lambda>field u.
                          case parseClientType field (modelName cs) u of
                            (t, u') \<Rightarrow>
                              ((if isRequired field \<and> \<not> (ffo \<and> (fio \<or> fieldName field \<noteq> ''id''))
                                then GraphQLNonNull t else t), u'))
                       [] s1))
               (fst (mapArrayToObject (filter qo (fields_list cs)) (\<lambda>field. fieldName field @ ''Id'')
                       (\<lambda>field u.
                          ((if isRequired field \<and> \<not> ffo then GraphQLNonNull GraphQLID else GraphQLID), u))
                       [] s3))"
proof -
  define valS where "valS =
       (\<lambda>field u.
          case parseClientType field (modelName cs) u of
            (t, u') \<Rightarrow>
              ((if isRequired field \<and> \<not> (ffo \<and> (fio \<or> fieldName field \<noteq> ''id''))
                then GraphQLNonNull t else t), u'))"
  define valO where "valO =
       (\<lambda>(field::ClientSchemaField) (u::TypeState).
          ((if isRequired field \<and> \<not> ffo then GraphQLNonNull GraphQLID else GraphQLID), u))"
  obtain sf s1 where 1: "filterS scalarFilter (fields_list cs) s = (sf, s1)"
    by (cases "filterS scalarFilter (fields_list cs) s")
  obtain sa s2 where 2: "mapArrayToObject sf fieldName valS [] s1 = (sa, s2)"
    by (cases "mapArrayToObject sf fieldName valS [] s1")
  obtain ofs s3 where 3: "filterS oneToOneFilter (fields_list cs) s2 = (ofs, s3)"
    by (cases "filterS oneToOneFilter (fields_list cs) s2")
  obtain oa s4 where 4: "mapArrayToObject ofs (\<lambda>field. fieldName field @ ''Id'') valO [] s3 = (oa, s4)"
    by (cases "mapArrayToObject ofs (\<lambda>field. fieldName field @ ''Id'') valO [] s3")
  have sf: "sf = filter qs (fields_list cs)"
    using filterS_pure [of scalarFilter qs "fields_list cs" s] assms(1) 1 by simp
  have ofs: "ofs = filter qo (fields_list cs)"
    using filterS_pure [of oneToOneFilter qo "fields_list cs" s2] assms(2) 3 by simp
  have "fst (generateObjectMutationInputArguments cs scalarFilter oneToOneFilter ffo fio s)
          = mergeObjects sa oa"
    using 1 2 3 4 unfolding valS_def valO_def
    by (simp add: generateObjectMutationInputArguments_def)
  also have "sa = fst (mapArrayToObject (filter qs (fields_list cs)) fieldName valS [] s1)"
    using 2 sf by simp
  also have "oa = fst (mapArrayToObject (filter qo (fields_list cs)) (\<lambda>field. fieldName field @ ''Id'')
                         valO [] s3)"
    using 4 ofs by simp
  finally show thesis
    using that [of s1 s3] unfolding valS_def valO_def by simp
qed

lemma Id_key_not_id: "x @ ''Id'' \<noteq> ''id''"
  by (cases x) (auto simp: append_eq_Cons_conv)


lemma mapArrayToObject_distinct:
  "distinct (map fst ob) \<Longrightarrow> distinct (map fst (fst (mapArrayToObject xs keyFn valFn ob s)))"
proof (induction xs arbitrary: ob s)
  case Nil
  then show ?case by simp
next
  case (Cons x xs)
  obtain v s' where v: "valFn x s = (v, s')" by (cases "valFn x s")
  from Cons.prems have "distinct (map fst (AList.update (keyFn x) v ob))"
    by (rule distinct_update)
  from Cons.IH [OF this, of s'] v show ?case by simp
qed

lemma mapArrayToObject_member:
  assumes "\<And>x u. x \<in> set xs \<Longrightarrow> P (keyFn x) (fst (valFn x u))"
      and "(k, v) \<in> set (fst (mapArrayToObject xs keyFn valFn [] s))"
  shows "P k v"
proof -
  have "distinct (map fst (fst (mapArrayToObject xs keyFn valFn [] s)))"
    by (rule mapArrayToObject_distinct) simp
  with assms(2) have "map_of (fst (mapArrayToObject xs keyFn valFn [] s)) k = Some v"
    by simp
  then show ?thesis
    using assms(1) mapArrayToObject_all [of "[]" P xs keyFn valFn s k v] by simp
qed


text \<open>
  Claim C8. In the update-mutation input arguments of an entity, every argument other than
  \<^verbatim>\<open>id\<close> is optional (its type is not non-null). The scalar field \<^verbatim>\<open>id\<close> keeps its required
  status: its argument is non-null exactly when the field is marked \<^verbatim>\<open>isRequired\<close>. Every
  one-to-one relation field is exposed as \<^verbatim>\<open>${fieldName}Id\<close> with the optional type
  \<^verbatim>\<open>GraphQLID\<close>. The arguments are the scalar fields under their names and the one-to-one
  relation fields under \<^verbatim>\<open>${fieldName}Id\<close> and nothing else, so a list relation gives no
  argument.
\<close>

theorem update_arguments_optional:
  assumes "generateUpdateObjectMutationInputArguments cs s = (uargs, s')"
  shows "(\<forall>k t. map_of uargs k = Some t \<longrightarrow> k \<noteq> ''id'' \<longrightarrow> \<not> isNonNull t) \<and>
         (\<forall>f \<in> set (fields_list cs).
            distinct (map fieldName (fields_list cs)) \<longrightarrow> fieldName f = ''id'' \<longrightarrow>
            typeIdentifier f \<in> set concreteTypeIdentifiers \<longrightarrow>
            (\<exists>t. isConcreteType t \<and>
                 map_of uargs ''id'' = Some (if isRequired f then GraphQLNonNull t else t))) \<and>
         (\<forall>f \<in> set (fields_list cs).
            typeIdentifier f \<notin> set concreteTypeIdentifiers \<longrightarrow> \<not> isList f \<longrightarrow>
            map_of uargs (fieldName f @ ''Id'') = Some GraphQLID) \<and>
         fst ` set uargs =
           fieldName ` {f \<in> set (fields_list cs). typeIdentifier f \<in> set concreteTypeIdentifiers} \<union>
           (\<lambda>f. fieldName f @ ''Id'') `
             {f \<in> set (fields_list cs). typeIdentifier f \<notin> set concreteTypeIdentifiers \<and> \<not> isList f}"
proof -
  define valS where "valS =
       (\<lambda>field u.
          case parseClientType field (modelName cs) u of
            (t, u') \<Rightarrow>
              ((if isRequired field \<and> \<not> (True \<and> (False \<or> fieldName field \<noteq> ''id''))
                then GraphQLNonNull t else t), u'))"
  define valO where "valO =
       (\<lambda>(field::ClientSchemaField) (u::TypeState).
          ((if isRequired field \<and> \<not> True then GraphQLNonNull GraphQLID else GraphQLID), u))"
  define scalars where
    "scalars = filter (\<lambda>f. typeIdentifier f \<in> set concreteTypeIdentifiers) (fields_list cs)"
  define ones where
    "ones = filter (\<lambda>f. typeIdentifier f \<notin> set concreteTypeIdentifiers \<and> \<not> isList f) (fields_list cs)"
  obtain s1 and s3 :: TypeState where
    "fst (generateUpdateObjectMutationInputArguments cs s) =
       mergeObjects (fst (mapArrayToObject scalars fieldName valS [] s1))
                    (fst (mapArrayToObject ones (\<lambda>field. fieldName field @ ''Id'') valO [] s3))"
    unfolding generateUpdateObjectMutationInputArguments_def valS_def valO_def scalars_def ones_def
    by (rule generateObjectMutationInputArguments_shape
              [of "scalarFilterOf cs" "\<lambda>f. typeIdentifier f \<in> set concreteTypeIdentifiers"
                  "oneToOneFilterOf cs"
                  "\<lambda>f. typeIdentifier f \<notin> set concreteTypeIdentifiers \<and> \<not> isList f"
                  cs True False s])
       (simp_all add: scalarFilterOf_pure oneToOneFilterOf_pure)
  then have shape: "uargs = mergeObjects (fst (mapArrayToObject scalars fieldName valS [] s1))
                    (fst (mapArrayToObject ones (\<lambda>field. fieldName field @ ''Id'') valO [] s3))"
    using assms by simp
  define sa where "sa = fst (mapArrayToObject scalars fieldName valS [] s1)"
  define oa where "oa = fst (mapArrayToObject ones (\<lambda>field. fieldName field @ ''Id'') valO [] s3)"
  have uargs: "uargs = mergeObjects sa oa"
    using shape by (simp add: sa_def oa_def)
  have valS_fst: "fst (valS f u) =
         (if isRequired f \<and> fieldName f = ''id'' then GraphQLNonNull (fst (parseClientType f (modelName cs) u))
          else fst (parseClientType f (modelName cs) u))" for f u
    by (simp add: valS_def case_prod_unfold)
  have sa_opt: "k \<noteq> ''id'' \<longrightarrow> \<not> isNonNull t" if "map_of sa k = Some t" for k t
  proof (rule mapArrayToObject_all [of "[]" "\<lambda>k t. k \<noteq> ''id'' \<longrightarrow> \<not> isNonNull t" scalars fieldName valS s1])
    show "map_of (fst (mapArrayToObject scalars fieldName valS [] s1)) k = Some t"
      using that by (simp add: sa_def)
  qed (simp_all add: valS_fst parseClientType_not_NonNull)
  have oa_id: "t = GraphQLID" if "(k, t) \<in> set oa" for k t
    by (rule mapArrayToObject_member [of ones "\<lambda>k t. t = GraphQLID" "\<lambda>field. fieldName field @ ''Id''" valO k t s3])
       (use that in \<open>simp_all add: valO_def oa_def\<close>)
  have oa_keys: "fst ` set oa = (\<lambda>f. fieldName f @ ''Id'') ` set ones"
    by (simp add: oa_def mapArrayToObject_keys)
  have sa_keys: "fst ` set sa = fieldName ` set scalars"
    by (simp add: sa_def mapArrayToObject_keys)
  have part1: "\<forall>k t. map_of uargs k = Some t \<longrightarrow> k \<noteq> ''id'' \<longrightarrow> \<not> isNonNull t"
  proof (intro allI impI)
    fix k t
    assume "map_of uargs k = Some t" and "k \<noteq> ''id''"
    then have "map_of sa k = Some t \<or> (k, t) \<in> set oa"
      using mergeObjects_entry [of sa oa k t] uargs by simp
    then show "\<not> isNonNull t"
      using sa_opt [of k t] oa_id [of k t] \<open>k \<noteq> ''id''\<close> by auto
  qed
  have part2: "\<exists>t. isConcreteType t \<and>
                 map_of uargs ''id'' = Some (if isRequired f then GraphQLNonNull t else t)"
    if f: "f \<in> set (fields_list cs)" and d: "distinct (map fieldName (fields_list cs))"
       and i: "fieldName f = ''id''" and c: "typeIdentifier f \<in> set concreteTypeIdentifiers" for f
  proof -
    have "''id'' \<notin> fst ` set oa"
      using oa_keys Id_key_not_id by (auto simp: image_iff)
    then have "map_of uargs ''id'' = map_of sa ''id''"
      using mergeObjects_left [of "''id''" oa sa] uargs by simp
    moreover have "distinct (map fieldName scalars)"
      using d by (simp add: scalars_def distinct_map_filter)
    moreover have "f \<in> set scalars"
      using f c by (simp add: scalars_def)
    ultimately obtain u where "map_of uargs ''id'' = Some (fst (valS f u))"
      using mapArrayToObject_lookup [of fieldName scalars f valS "[]" s1] i
      by (auto simp: sa_def)
    then have "map_of uargs ''id'' =
                 Some (if isRequired f then GraphQLNonNull (fst (parseClientType f (modelName cs) u))
                       else fst (parseClientType f (modelName cs) u))"
      using i by (simp add: valS_fst)
    moreover have "isConcreteType (fst (parseClientType f (modelName cs) u))"
      using c by (rule parseClientType_isConcrete)
    ultimately show ?thesis by blast
  qed
  have part3: "map_of uargs (fieldName f @ ''Id'') = Some GraphQLID"
    if f: "f \<in> set (fields_list cs)" and r: "typeIdentifier f \<notin> set concreteTypeIdentifiers"
       and l: "\<not> isList f" for f
  proof -
    have "f \<in> set ones" using f r l by (simp add: ones_def)
    then have "fieldName f @ ''Id'' \<in> fst ` set uargs"
      using oa_keys uargs by (auto simp: mergeObjects_keys)
    then obtain t where t: "map_of uargs (fieldName f @ ''Id'') = Some t"
      by (metis domD dom_map_of_conv_image_fst)
    have "fieldName f @ ''Id'' \<noteq> ''id''" by (rule Id_key_not_id)
    from t have "map_of sa (fieldName f @ ''Id'') = Some t \<or> (fieldName f @ ''Id'', t) \<in> set oa"
      using mergeObjects_entry [of sa oa] uargs by simp
    moreover have "map_of (mergeObjects sa oa) (fieldName f @ ''Id'') \<noteq> map_of sa (fieldName f @ ''Id'')
                   \<or> (fieldName f @ ''Id'', t) \<in> set oa"
    proof -
      from \<open>f \<in> set ones\<close> have "fieldName f @ ''Id'' \<in> fst ` set oa"
        using oa_keys by auto
      then obtain v where v: "map_of (rev oa) (fieldName f @ ''Id'') = Some v"
        by (metis domD dom_map_of_conv_image_fst set_rev)
      then have "map_of (mergeObjects sa oa) (fieldName f @ ''Id'') = Some v"
        by (simp add: mergeObjects_map_of map_add_def)
      with t uargs have "v = t" by simp
      with v have "(fieldName f @ ''Id'', t) \<in> set oa"
        using map_of_SomeD [of "rev oa"] by auto
      then show ?thesis by simp
    qed
    ultimately have "(fieldName f @ ''Id'', t) \<in> set oa"
      using t uargs by auto
    then have "t = GraphQLID" by (rule oa_id)
    with t show ?thesis by simp
  qed
  have part4: "fst ` set uargs =
           fieldName ` {f \<in> set (fields_list cs). typeIdentifier f \<in> set concreteTypeIdentifiers} \<union>
           (\<lambda>f. fieldName f @ ''Id'') `
             {f \<in> set (fields_list cs). typeIdentifier f \<notin> set concreteTypeIdentifiers \<and> \<not> isList f}"
    using sa_keys oa_keys uargs by (simp add: mergeObjects_keys scalars_def ones_def)
  from part1 part2 part3 part4 show ?thesis by blast
qed


theorem update_arguments_optional_witness:
  "\<not> isNonNull (the (map_of (fst (generateUpdateObjectMutationInputArguments exPost
                                   \<lparr>store = [], enumTypes = []\<rparr>)) ''status'')) \<and>
   (\<exists>t. isConcreteType t \<and>
        map_of (fst (generateUpdateObjectMutationInputArguments exPost \<lparr>store = [], enumTypes = []\<rparr>))
          ''id'' = Some (GraphQLNonNull t)) \<and>
   map_of (fst (generateUpdateObjectMutationInputArguments exPost \<lparr>store = [], enumTypes = []\<rparr>))
     ''authorId'' = Some GraphQLID \<and>
   fst ` set (fst (generateUpdateObjectMutationInputArguments exPost \<lparr>store = [], enumTypes = []\<rparr>))
     = {''id'', ''title'', ''status'', ''authorId''}"
proof -
  let ?s = "\<lparr>store = [], enumTypes = []\<rparr>"
  let ?u = "fst (generateUpdateObjectMutationInputArguments exPost ?s)"
  have run: "generateUpdateObjectMutationInputArguments exPost ?s
               = (?u, snd (generateUpdateObjectMutationInputArguments exPost ?s))"
    by simp
  note upd = update_arguments_optional [OF run]
  have status: "map_of ?u ''status'' = Some (GraphQLEnumType 0)"
    by code_simp
  have names: "distinct (map fieldName (fields_list exPost))"
    by (simp add: exPost_def exField_def)
  have idf: "exField ''id'' ''GraphQLID'' True False \<in> set (fields_list exPost)"
            "fieldName (exField ''id'' ''GraphQLID'' True False) = ''id''"
            "typeIdentifier (exField ''id'' ''GraphQLID'' True False) \<in> set concreteTypeIdentifiers"
            "isRequired (exField ''id'' ''GraphQLID'' True False)"
    by (simp_all add: exPost_def exField_def concreteTypeIdentifiers_def)
  have author: "exField ''author'' ''User'' True False \<in> set (fields_list exPost)"
               "typeIdentifier (exField ''author'' ''User'' True False) \<notin> set concreteTypeIdentifiers"
               "\<not> isList (exField ''author'' ''User'' True False)"
               "fieldName (exField ''author'' ''User'' True False) @ ''Id'' = ''authorId''"
    by (simp_all add: exPost_def exField_def concreteTypeIdentifiers_def)
  have p1: "\<forall>k t. map_of ?u k = Some t \<longrightarrow> k \<noteq> ''id'' \<longrightarrow> \<not> isNonNull t"
    using upd by (rule conjunct1)
  have p2: "\<forall>f \<in> set (fields_list exPost).
              distinct (map fieldName (fields_list exPost)) \<longrightarrow> fieldName f = ''id'' \<longrightarrow>
              typeIdentifier f \<in> set concreteTypeIdentifiers \<longrightarrow>
              (\<exists>t. isConcreteType t \<and>
                   map_of ?u ''id'' = Some (if isRequired f then GraphQLNonNull t else t))"
    using upd by (rule conjunct2 [THEN conjunct1])
  have p3: "\<forall>f \<in> set (fields_list exPost).
              typeIdentifier f \<notin> set concreteTypeIdentifiers \<longrightarrow> \<not> isList f \<longrightarrow>
              map_of ?u (fieldName f @ ''Id'') = Some GraphQLID"
    using upd by (rule conjunct2 [THEN conjunct2, THEN conjunct1])
  have p4: "fst ` set ?u =
           fieldName ` {f \<in> set (fields_list exPost). typeIdentifier f \<in> set concreteTypeIdentifiers} \<union>
           (\<lambda>f. fieldName f @ ''Id'') `
             {f \<in> set (fields_list exPost). typeIdentifier f \<notin> set concreteTypeIdentifiers \<and> \<not> isList f}"
    using upd by (rule conjunct2 [THEN conjunct2, THEN conjunct2])
  have c1: "\<not> isNonNull (the (map_of ?u ''status''))"
    using p1 [rule_format, OF status] status by simp
  have c2: "\<exists>t. isConcreteType t \<and> map_of ?u ''id'' = Some (GraphQLNonNull t)"
    using p2 [rule_format, OF idf(1) names idf(2) idf(3)] idf(4) by simp
  have c3: "map_of ?u ''authorId'' = Some GraphQLID"
    using p3 [rule_format, OF author(1) author(2) author(3)] author(4) by simp
  have "fieldName ` {f \<in> set (fields_list exPost). typeIdentifier f \<in> set concreteTypeIdentifiers} \<union>
           (\<lambda>f. fieldName f @ ''Id'') `
             {f \<in> set (fields_list exPost). typeIdentifier f \<notin> set concreteTypeIdentifiers \<and> \<not> isList f}
          = {''id'', ''title'', ''status'', ''authorId''}"
    unfolding set_filter [symmetric]
    by (simp add: exPost_def exField_def concreteTypeIdentifiers_def insert_commute)
  with p4 have c4: "fst ` set ?u = {''id'', ''title'', ''status'', ''authorId''}"
    by simp
  from c1 c2 c3 c4 show ?thesis by (intro conjI)
qed



section \<open>Loops over the fields of one object type\<close>

lemma forEachE_keyed:
  assumes "forEachE body xs ob = Inr ob'"
      and "\<And>x o1 o2 k. body x o1 = Inr o2 \<Longrightarrow> k \<noteq> key x \<Longrightarrow> map_of o2 k = map_of o1 k"
  shows "k \<notin> key ` set xs \<Longrightarrow> map_of ob' k = map_of ob k"
    and "distinct (map key xs) \<Longrightarrow> x \<in> set xs \<Longrightarrow>
           \<exists>o1 o2. map_of o1 (key x) = map_of ob (key x) \<and> body x o1 = Inr o2 \<and>
                   map_of ob' (key x) = map_of o2 (key x)"
proof -
  have untouched: "map_of ob' k = map_of ob k"
    if "forEachE body xs ob = Inr ob'" "k \<notin> key ` set xs" for xs ob ob' k
    using that
  proof (induction xs arbitrary: ob)
    case Nil
    then show ?case by simp
  next
    case (Cons y ys)
    from Cons.prems(1) obtain o1 where y: "body y ob = Inr o1" and r: "forEachE body ys o1 = Inr ob'"
      by (auto split: sum.splits)
    from Cons.prems(2) have "k \<noteq> key y" "k \<notin> key ` set ys" by auto
    with Cons.IH [OF r] assms(2) [OF y] show ?case by simp
  qed
  show "k \<notin> key ` set xs \<Longrightarrow> map_of ob' k = map_of ob k"
    using untouched [OF assms(1)] .
  show "distinct (map key xs) \<Longrightarrow> x \<in> set xs \<Longrightarrow>
           \<exists>o1 o2. map_of o1 (key x) = map_of ob (key x) \<and> body x o1 = Inr o2 \<and>
                   map_of ob' (key x) = map_of o2 (key x)"
    using assms(1)
  proof (induction xs arbitrary: ob)
    case Nil
    then show ?case by simp
  next
    case (Cons y ys)
    from Cons.prems(3) obtain o1 where y: "body y ob = Inr o1" and r: "forEachE body ys o1 = Inr ob'"
      by (auto split: sum.splits)
    show ?case
    proof (cases "x = y")
      case True
      with Cons.prems(1) have "key x \<notin> key ` set ys" by auto
      from untouched [OF r this] y True show ?thesis by blast
    next
      case False
      with Cons.prems have d: "distinct (map key ys)" and m: "x \<in> set ys"
        by auto
      from Cons.prems(1) m have ne: "key x \<noteq> key y"
        by (auto simp: image_iff)
      from Cons.IH [OF d m r] obtain o3 o4 where
        "map_of o3 (key x) = map_of o1 (key x)" "body x o3 = Inr o4"
        "map_of ob' (key x) = map_of o4 (key x)"
        by blast
      moreover have "map_of o1 (key x) = map_of ob (key x)"
        using assms(2) [OF y ne] .
      ultimately show ?thesis by metis
    qed
  qed
qed

lemma forEachE_keys:
  assumes "forEachE body xs ob = Inr ob'"
      and "\<And>x o1 o2. body x o1 = Inr o2 \<Longrightarrow> fst ` set o2 = fst ` set o1"
  shows "fst ` set ob' = fst ` set ob"
  using assms(1)
proof (induction xs arbitrary: ob)
  case Nil
  then show ?case by simp
next
  case (Cons y ys)
  from Cons.prems obtain o1 where y: "body y ob = Inr o1" and r: "forEachE body ys o1 = Inr ob'"
    by (auto split: sum.splits)
  from Cons.IH [OF r] assms(2) [OF y] show ?case by simp
qed


section \<open>The relationship pass and the non-null pass on one object type\<close>

lemma injectField_other:
  "injectField allClientTypes cs f o1 = Inr o2 \<Longrightarrow> k \<noteq> fieldName f \<Longrightarrow> map_of o2 k = map_of o1 k"
  by (auto simp: injectField_def Let_def update_conv' split: option.splits if_splits)

lemma injectField_own:
  assumes "injectField allClientTypes cs f o1 = Inr o2"
  shows "\<exists>fc b fc'. map_of o1 (fieldName f) = Some fc \<and>
           map_of allClientTypes (typeIdentifierOf (type fc)) = Some b \<and>
           map_of o2 (fieldName f) = Some fc' \<and>
           type fc' = (if isList f then connectionType b else GraphQLObjectType (name (objectType b)))"
  using assms
  by (auto simp: injectField_def Let_def update_conv' split: option.splits if_splits)

lemma relationFields_filter:
  "relationFields otf fs = Inr rels \<Longrightarrow>
     rels = filter (\<lambda>f. \<exists>fc. map_of otf (fieldName f) = Some fc \<and> isRelation (type fc)) fs \<and>
     (\<forall>f \<in> set fs. \<exists>fc. map_of otf (fieldName f) = Some fc)"
proof (induction fs arbitrary: rels)
  case Nil
  then show ?case by simp
next
  case (Cons g gs)
  from Cons.prems obtain fc r where fc: "map_of otf (fieldName g) = Some fc"
    and r: "relationFields otf gs = Inr r"
    and rels: "rels = (if isRelation (type fc) then g # r else r)"
    by (auto split: option.splits sum.splits)
  from Cons.IH [OF r] fc rels show ?case by auto
qed

lemma injectRelationships_field:
  assumes "injectRelationships ot cs allClientTypes = Inr ot'"
      and "distinct (map fieldName (fields_list cs))"
      and "f \<in> set (fields_list cs)"
  shows "\<exists>fc. map_of (fields_obj ot) (fieldName f) = Some fc \<and>
           (isRelation (type fc) \<longrightarrow>
              (\<exists>b fc'. map_of allClientTypes (typeIdentifierOf (type fc)) = Some b \<and>
                       map_of (fields_obj ot') (fieldName f) = Some fc' \<and>
                       type fc' = (if isList f then connectionType b
                                   else GraphQLObjectType (name (objectType b))))) \<and>
           (\<not> isRelation (type fc) \<longrightarrow> map_of (fields_obj ot') (fieldName f) = Some fc)"
proof -
  from assms(1) obtain rels otf' where
    rels: "relationFields (fields_obj ot) (fields_list cs) = Inr rels"
    and loop: "forEachE (injectField allClientTypes cs) rels (fields_obj ot) = Inr otf'"
    and ot': "ot' = ot\<lparr>fields_obj := otf'\<rparr>"
    by (auto simp: injectRelationships_def split: sum.splits)
  from relationFields_filter [OF rels] assms(3) obtain fc where
    filt: "rels = filter (\<lambda>f. \<exists>fc. map_of (fields_obj ot) (fieldName f) = Some fc \<and> isRelation (type fc))
                    (fields_list cs)"
    and fc: "map_of (fields_obj ot) (fieldName f) = Some fc"
    by blast
  have drels: "distinct (map fieldName rels)"
    using assms(2) filt by (simp add: distinct_map_filter)
  show ?thesis
  proof (cases "isRelation (type fc)")
    case True
    with fc assms(3) filt have "f \<in> set rels" by simp
    then have "\<exists>o1 o2. map_of o1 (fieldName f) = map_of (fields_obj ot) (fieldName f) \<and>
                 injectField allClientTypes cs f o1 = Inr o2 \<and>
                 map_of otf' (fieldName f) = map_of o2 (fieldName f)"
      by (intro forEachE_keyed(2) [where key = fieldName, OF loop _ drels]) (rule injectField_other)
    then obtain o1 o2 where o: "map_of o1 (fieldName f) = map_of (fields_obj ot) (fieldName f)"
      "injectField allClientTypes cs f o1 = Inr o2"
      "map_of otf' (fieldName f) = map_of o2 (fieldName f)"
      by blast
    from injectField_own [OF o(2)] o(1,3) fc ot' True show ?thesis
      by auto
  next
    case False
    have "fieldName f \<notin> fieldName ` set rels"
    proof
      assume "fieldName f \<in> fieldName ` set rels"
      then obtain g where g: "g \<in> set rels" "fieldName g = fieldName f" by auto
      with filt have "g \<in> set (fields_list cs)" by simp
      with assms(2,3) g(2) have "g = f"
        by (meson distinct_map inj_onD)
      with g(1) filt fc False show False by simp
    qed
    then have "map_of otf' (fieldName f) = map_of (fields_obj ot) (fieldName f)"
      by (intro forEachE_keyed(1) [where key = fieldName, OF loop]) (rule injectField_other)
    with fc ot' False show ?thesis
      by simp
  qed
qed

lemma injectRelationships_name:
  "injectRelationships ot cs allClientTypes = Inr ot' \<Longrightarrow> name ot' = name ot"
  by (auto simp: injectRelationships_def split: sum.splits)

lemma wrapField_other:
  "wrapField f o1 = Inr o2 \<Longrightarrow> k \<noteq> fieldName f \<Longrightarrow> map_of o2 k = map_of o1 k"
  by (auto simp: wrapField_def update_conv' split: option.splits sum.splits)

lemma wrapField_own:
  assumes "wrapField f o1 = Inr o2"
  shows "\<exists>fc. map_of o1 (fieldName f) = Some fc \<and> \<not> isNonNull (type fc) \<and>
              map_of o2 (fieldName f) = Some (fc\<lparr>type := GraphQLNonNull (type fc)\<rparr>)"
  using assms
  by (auto simp: wrapField_def newGraphQLNonNull_def update_conv' split: option.splits sum.splits if_splits)

lemma wrapWithNonNull_field:
  assumes "wrapWithNonNull ot cs = Inr ot'"
      and "distinct (map fieldName (fields_list cs))"
      and "f \<in> set (fields_list cs)"
      and "isRequired f"
  shows "\<exists>fc. map_of (fields_obj ot) (fieldName f) = Some fc \<and> \<not> isNonNull (type fc) \<and>
              map_of (fields_obj ot') (fieldName f) = Some (fc\<lparr>type := GraphQLNonNull (type fc)\<rparr>)"
proof -
  from assms(1) obtain otf' where
    loop: "forEachE wrapField (filter isRequired (fields_list cs)) (fields_obj ot) = Inr otf'"
    and ot': "ot' = ot\<lparr>fields_obj := otf'\<rparr>"
    by (auto simp: wrapWithNonNull_def split: sum.splits)
  have d: "distinct (map fieldName (filter isRequired (fields_list cs)))"
    using assms(2) by (simp add: distinct_map_filter)
  have m: "f \<in> set (filter isRequired (fields_list cs))"
    using assms(3,4) by simp
  have "\<exists>o1 o2. map_of o1 (fieldName f) = map_of (fields_obj ot) (fieldName f) \<and>
                 wrapField f o1 = Inr o2 \<and>
                 map_of otf' (fieldName f) = map_of o2 (fieldName f)"
    by (intro forEachE_keyed(2) [where key = fieldName, OF loop _ d m]) (rule wrapField_other)
  then obtain o1 o2 where o: "map_of o1 (fieldName f) = map_of (fields_obj ot) (fieldName f)"
      "wrapField f o1 = Inr o2"
      "map_of otf' (fieldName f) = map_of o2 (fieldName f)"
    by blast
  from wrapField_own [OF o(2)] o(1,3) ot' show ?thesis
    by auto
qed

lemma wrapWithNonNull_name:
  "wrapWithNonNull ot cs = Inr ot' \<Longrightarrow> name ot' = name ot"
  by (auto simp: wrapWithNonNull_def split: sum.splits)


section \<open>Loops over the bundle set\<close>

lemma refsOf_map_of:
  "map_of (refsOf ct) k =
     map_option (\<lambda>b. (clientSchema b, connectionType b, name (objectType b))) (map_of ct k)"
  by (induction ct) (auto simp: refsOf_def)

lemma refsOf_keys: "map fst (refsOf ct) = map fst ct"
  by (induction ct) (auto simp: refsOf_def)

lemma refsOf_update:
  "refsOf (AList.update k b ct) =
     AList.update k (clientSchema b, connectionType b, name (objectType b)) (refsOf ct)"
  by (induction ct) (auto simp: refsOf_def)

lemma onBundle_other:
  "onBundle pass x ct = Inr ct' \<Longrightarrow> k \<noteq> x \<Longrightarrow> map_of ct' k = map_of ct k"
  by (auto simp: onBundle_def update_conv' split: option.splits sum.splits)

lemma onBundle_own:
  "onBundle pass x ct = Inr ct' \<Longrightarrow>
     \<exists>b ot. map_of ct x = Some b \<and> pass b ct = Inr ot \<and> map_of ct' x = Some (b\<lparr>objectType := ot\<rparr>)"
  by (auto simp: onBundle_def update_conv' split: option.splits sum.splits)

lemma onBundle_refs:
  assumes "onBundle pass x ct = Inr ct'"
      and "\<And>b all ot. pass b all = Inr ot \<Longrightarrow> name ot = name (objectType b)"
  shows "refsOf ct' = refsOf ct"
proof -
  from assms(1) obtain b ot where b: "map_of ct x = Some b" and ot: "pass b ct = Inr ot"
    and ct': "ct' = AList.update x (b\<lparr>objectType := ot\<rparr>) ct"
    by (auto simp: onBundle_def split: option.splits sum.splits)
  have "refsOf ct' = AList.update x (clientSchema b, connectionType b, name (objectType b)) (refsOf ct)"
    using assms(2) [OF ot] by (simp add: ct' refsOf_update)
  also have "\<dots> = refsOf ct"
    by (rule update_triv) (simp add: refsOf_map_of b)
  finally show ?thesis .
qed

lemma forEachE_onBundle:
  assumes "forEachE (onBundle pass) ks ct = Inr ct'"
      and "\<And>b all ot. pass b all = Inr ot \<Longrightarrow> name ot = name (objectType b)"
      and "\<And>b all all'. refsOf all = refsOf all' \<Longrightarrow> pass b all = pass b all'"
  shows "refsOf ct' = refsOf ct"
    and "distinct ks \<Longrightarrow> k \<in> set ks \<Longrightarrow>
           \<exists>b ot. map_of ct k = Some b \<and> pass b ct = Inr ot \<and>
                  map_of ct' k = Some (b\<lparr>objectType := ot\<rparr>)"
proof -
  have refs: "refsOf ct' = refsOf ct" if "forEachE (onBundle pass) ks ct = Inr ct'" for ks ct ct'
    using that
  proof (induction ks arbitrary: ct)
    case Nil
    then show ?case by simp
  next
    case (Cons x xs)
    from Cons.prems obtain c1 where x: "onBundle pass x ct = Inr c1"
      and r: "forEachE (onBundle pass) xs c1 = Inr ct'"
      by (auto split: sum.splits)
    from Cons.IH [OF r] onBundle_refs [OF x assms(2)] show ?case by simp
  qed
  show "refsOf ct' = refsOf ct"
    using refs [OF assms(1)] .
  have untouched: "map_of ct' k = map_of ct k"
    if "forEachE (onBundle pass) ks ct = Inr ct'" "k \<notin> set ks" for ks ct ct' k
    using that
  proof (induction ks arbitrary: ct)
    case Nil
    then show ?case by simp
  next
    case (Cons x xs)
    from Cons.prems(1) obtain c1 where x: "onBundle pass x ct = Inr c1"
      and r: "forEachE (onBundle pass) xs c1 = Inr ct'"
      by (auto split: sum.splits)
    from Cons.prems(2) have "k \<noteq> x" "k \<notin> set xs" by auto
    with Cons.IH [OF r] onBundle_other [OF x] show ?case by simp
  qed
  show "distinct ks \<Longrightarrow> k \<in> set ks \<Longrightarrow>
           \<exists>b ot. map_of ct k = Some b \<and> pass b ct = Inr ot \<and>
                  map_of ct' k = Some (b\<lparr>objectType := ot\<rparr>)"
    using assms(1)
  proof (induction ks arbitrary: ct)
    case Nil
    then show ?case by simp
  next
    case (Cons x xs)
    from Cons.prems(3) obtain c1 where x: "onBundle pass x ct = Inr c1"
      and r: "forEachE (onBundle pass) xs c1 = Inr ct'"
      by (auto split: sum.splits)
    show ?case
    proof (cases "k = x")
      case True
      with Cons.prems(1) have "k \<notin> set xs" by simp
      from untouched [OF r this] onBundle_own [OF x] True show ?thesis by auto
    next
      case False
      with Cons.prems have d: "distinct xs" and m: "k \<in> set xs" by auto
      from Cons.IH [OF d m r] obtain b ot where
        b: "map_of c1 k = Some b" "pass b c1 = Inr ot" "map_of ct' k = Some (b\<lparr>objectType := ot\<rparr>)"
        by blast
      have "map_of ct k = Some b"
        using onBundle_other [OF x False] b(1) by simp
      moreover have "refsOf c1 = refsOf ct"
        by (rule onBundle_refs [OF x assms(2)])
      then have "pass b c1 = pass b ct"
        by (rule assms(3))
      with b(2) have "pass b ct = Inr ot" by simp
      ultimately show ?thesis using b(3) by blast
    qed
  qed
qed

lemma injectField_refs:
  assumes "refsOf all = refsOf all'"
  shows "injectField all cs f ob = injectField all' cs f ob"
proof (cases "map_of ob (fieldName f)")
  case None
  then show ?thesis by (simp add: injectField_def)
next
  case (Some fc)
  have "map_option (\<lambda>b. (clientSchema b, connectionType b, name (objectType b)))
          (map_of all (typeIdentifierOf (type fc))) =
        map_option (\<lambda>b. (clientSchema b, connectionType b, name (objectType b)))
          (map_of all' (typeIdentifierOf (type fc)))"
    using assms refsOf_map_of [of all] refsOf_map_of [of all'] by metis
  then show ?thesis
    using Some
    by (cases "map_of all (typeIdentifierOf (type fc))";
        cases "map_of all' (typeIdentifierOf (type fc))")
       (auto simp: injectField_def Let_def)
qed

lemma injectRelationships_refs:
  assumes "refsOf all = refsOf all'"
  shows "injectRelationships ot cs all = injectRelationships ot cs all'"
proof -
  have e: "injectField all cs = injectField all' cs"
    using injectField_refs [OF assms] by (intro ext)
  show ?thesis
    unfolding injectRelationships_def e by (rule refl)
qed


lemma createTypes_passes:
  assumes "createTypes isScalar clientSchemas schemaType st = Inr (res, st')"
  shows "\<exists>ct2.
           forEachE (onBundle (\<lambda>b all. injectRelationships (objectType b) (clientSchema b) all))
             (map fst (fst (mapArrayToObject clientSchemas modelName (generateBundle isScalar schemaType) []
                              \<lparr>store = st, enumTypes = []\<rparr>)))
             (fst (mapArrayToObject clientSchemas modelName (generateBundle isScalar schemaType) []
                     \<lparr>store = st, enumTypes = []\<rparr>)) = Inr ct2 \<and>
           forEachE (onBundle (\<lambda>b all. wrapWithNonNull (objectType b) (clientSchema b)))
             (map fst ct2) ct2 = Inr (clientTypes res)"
proof -
  obtain ct1 s where 1: "mapArrayToObject clientSchemas modelName (generateBundle isScalar schemaType) []
                              \<lparr>store = st, enumTypes = []\<rparr> = (ct1, s)"
    by (cases "mapArrayToObject clientSchemas modelName (generateBundle isScalar schemaType) []
                              \<lparr>store = st, enumTypes = []\<rparr>")
  show ?thesis
    using assms unfolding createTypes_def 1
    by (auto split: sum.splits)
qed


section \<open>Required fields are non-null\<close>

lemma generateBundle_parts:
  "clientSchema (fst (generateBundle isScalar schemaType cs u)) = cs \<and>
   connectionType (fst (generateBundle isScalar schemaType cs u)) = ConnectionType (modelName cs) \<and>
   objectType (fst (generateBundle isScalar schemaType cs u)) = fst (generateObjectType cs u)"
  by (simp add: generateBundle_def split: prod.splits)

lemma generateObjectType_name: "name (fst (generateObjectType cs u)) = modelName cs"
  by (simp add: generateObjectType_def split: prod.splits)

lemma generateObjectType_field:
  assumes "distinct (map fieldName (fields_list cs))" and "f \<in> set (fields_list cs)"
  shows "\<exists>fc u'. map_of (fields_obj (fst (generateObjectType cs u))) (fieldName f) = Some fc \<and>
                  type fc = fst (parseClientType f (modelName cs) u')"
proof -
  define valF where "valF =
       (\<lambda>field u.
          case parseClientType field (modelName cs) u of
            (t, u') \<Rightarrow>
              (\<lparr>type = t, args = None,
                resolve = (if fieldName field = ''id''
                           then ResolveGlobalId (modelName cs) field
                           else ResolveValueOrDefault field)\<rparr>, u'))"
  have flds: "fields_obj (fst (generateObjectType cs u))
                = fst (mapArrayToObject (fields_list cs) fieldName valF [] u)"
    by (simp add: generateObjectType_def valF_def split: prod.splits)
  from mapArrayToObject_lookup [OF assms, of valF "[]" u] obtain u' where
    "map_of (fst (mapArrayToObject (fields_list cs) fieldName valF [] u)) (fieldName f)
       = Some (fst (valF f u'))"
    by blast
  moreover have "type (fst (valF f u')) = fst (parseClientType f (modelName cs) u')"
    by (simp add: valF_def split: prod.splits)
  ultimately show ?thesis
    using flds by auto
qed

lemma pass1_bundle:
  assumes "distinct (map modelName clientSchemas)" and "cs \<in> set clientSchemas"
  shows "\<exists>u. map_of (fst (mapArrayToObject clientSchemas modelName (generateBundle isScalar schemaType)
                            [] s)) (modelName cs)
               = Some (fst (generateBundle isScalar schemaType cs u))"
  using mapArrayToObject_lookup [OF assms] .

lemma pass1_entries:
  assumes "map_of (fst (mapArrayToObject clientSchemas modelName (generateBundle isScalar schemaType)
                          [] s)) k = Some b"
  shows "connectionType b = ConnectionType k \<and> name (objectType b) = k"
  using mapArrayToObject_all
          [of "[]" "\<lambda>k b. connectionType b = ConnectionType k \<and> name (objectType b) = k"
              clientSchemas modelName "generateBundle isScalar schemaType" s k b] assms
  by (simp add: generateBundle_parts generateObjectType_name)


text \<open>
  Claim C1. Let \<^verbatim>\<open>createTypes\<close> return for a batch of entity schemas with distinct model
  names, and let \<open>f\<close> be a field marked \<^verbatim>\<open>isRequired\<close> of an entity schema \<open>cs\<close> of the batch
  whose field names are distinct. Then the type of \<open>f\<close> in the generated object type of
  \<open>cs\<close> is the non-null wrapping of the final resolved type of \<open>f\<close>: for a relation field
  the connection type of the related entity (a list relation) or its object type (a
  one-to-one relation), the related entity being one of the batch; for every other field
  the scalar or enum type the mapper gives it. The wrapped type is never the relation
  marker and never itself non-null.
\<close>

theorem required_fields_nonnull:
  assumes "createTypes isScalar clientSchemas schemaType st = Inr (res, st')"
      and "distinct (map modelName clientSchemas)"
      and "cs \<in> set clientSchemas"
      and "distinct (map fieldName (fields_list cs))"
      and "f \<in> set (fields_list cs)"
      and "isRequired f"
  shows "\<exists>b fc t. map_of (clientTypes res) (modelName cs) = Some b \<and> clientSchema b = cs \<and>
           map_of (fields_obj (objectType b)) (fieldName f) = Some fc \<and>
           type fc = GraphQLNonNull t \<and> \<not> isRelation t \<and> \<not> isNonNull t \<and>
           (typeIdentifier f \<in> set concreteTypeIdentifiers \<longrightarrow>
              isConcreteType t \<and> (\<exists>u. t = fst (parseClientType f (modelName cs) u))) \<and>
           (typeIdentifier f \<notin> set concreteTypeIdentifiers \<longrightarrow>
              typeIdentifier f \<in> fst ` set (clientTypes res) \<and>
              t = (if isList f then ConnectionType (typeIdentifier f)
                   else GraphQLObjectType (typeIdentifier f)))"
proof -
  define ct1 where
    "ct1 = fst (mapArrayToObject clientSchemas modelName (generateBundle isScalar schemaType) []
                  \<lparr>store = st, enumTypes = []\<rparr>)"
  define pass2 where
    "pass2 = (\<lambda>(b::Bundle) all. injectRelationships (objectType b) (clientSchema b) all)"
  define pass3 where
    "pass3 = (\<lambda>(b::Bundle) (all::ClientTypes). wrapWithNonNull (objectType b) (clientSchema b))"
  have "\<exists>ct2. forEachE (onBundle pass2) (map fst ct1) ct1 = Inr ct2 \<and>
              forEachE (onBundle pass3) (map fst ct2) ct2 = Inr (clientTypes res)"
    using createTypes_passes [OF assms(1)] unfolding ct1_def pass2_def pass3_def .
  then obtain ct2 where
    p2: "forEachE (onBundle pass2) (map fst ct1) ct1 = Inr ct2"
    and p3: "forEachE (onBundle pass3) (map fst ct2) ct2 = Inr (clientTypes res)"
    by (elim exE conjE)
  have d1: "distinct (map fst ct1)"
    unfolding ct1_def by (rule mapArrayToObject_distinct) simp
  have name2: "name ot = name (objectType b)" if "pass2 b all = Inr ot" for b all ot
    using injectRelationships_name [of "objectType b" "clientSchema b" all ot] that
    by (simp add: pass2_def)
  have refs2: "pass2 b all = pass2 b all'" if "refsOf all = refsOf all'" for b all all'
    using injectRelationships_refs [OF that, of "objectType b" "clientSchema b"]
    by (simp add: pass2_def)
  have name3: "name ot = name (objectType b)" if "pass3 b all = Inr ot" for b all ot
    using wrapWithNonNull_name [of "objectType b" "clientSchema b" ot] that
    by (simp add: pass3_def)
  have refs3: "pass3 b all = pass3 b all'" for b all all'
    by (simp add: pass3_def)
  have r2: "refsOf ct2 = refsOf ct1"
    by (rule forEachE_onBundle(1) [OF p2 name2 refs2])
  have r3: "refsOf (clientTypes res) = refsOf ct2"
    by (rule forEachE_onBundle(1) [OF p3 name3 refs3])
  have keys2: "map fst ct2 = map fst ct1"
    using refsOf_keys [of ct2] refsOf_keys [of ct1] r2 by simp
  have keys3: "map fst (clientTypes res) = map fst ct1"
    using refsOf_keys [of "clientTypes res"] refsOf_keys [of ct2] r3 keys2 by simp
  have "\<exists>u. map_of ct1 (modelName cs) = Some (fst (generateBundle isScalar schemaType cs u))"
    unfolding ct1_def by (rule pass1_bundle [OF assms(2,3)])
  then obtain u where
    b1': "map_of ct1 (modelName cs) = Some (fst (generateBundle isScalar schemaType cs u))"
    by (elim exE)
  define b1 where "b1 = fst (generateBundle isScalar schemaType cs u)"
  have b1: "map_of ct1 (modelName cs) = Some b1"
    using b1' by (simp add: b1_def)
  have b1_schema: "clientSchema b1 = cs" and b1_ot: "objectType b1 = fst (generateObjectType cs u)"
    by (simp_all add: b1_def generateBundle_parts)
  have "\<exists>fc u'. map_of (fields_obj (objectType b1)) (fieldName f) = Some fc \<and>
                  type fc = fst (parseClientType f (modelName cs) u')"
    unfolding b1_ot by (rule generateObjectType_field [OF assms(4,5)])
  then obtain fc1 u' where
    fc1: "map_of (fields_obj (objectType b1)) (fieldName f) = Some fc1"
    and t1: "type fc1 = fst (parseClientType f (modelName cs) u')"
    by (elim exE conjE)
  have in1: "modelName cs \<in> set (map fst ct1)"
    using map_of_SomeD [OF b1] by (simp add: image_iff) force
  have "\<exists>b ot. map_of ct1 (modelName cs) = Some b \<and> pass2 b ct1 = Inr ot \<and>
                 map_of ct2 (modelName cs) = Some (b\<lparr>objectType := ot\<rparr>)"
    by (rule forEachE_onBundle(2) [OF p2 name2 refs2 d1 in1])
  with b1 obtain ot2 where
    ot2: "pass2 b1 ct1 = Inr ot2" and b2: "map_of ct2 (modelName cs) = Some (b1\<lparr>objectType := ot2\<rparr>)"
    by auto
  from ot2 have inj: "injectRelationships (objectType b1) cs ct1 = Inr ot2"
    by (simp add: pass2_def b1_schema)
  from injectRelationships_field [OF inj assms(4,5)] fc1 have
    rel: "isRelation (type fc1) \<longrightarrow>
            (\<exists>b fc'. map_of ct1 (typeIdentifierOf (type fc1)) = Some b \<and>
                     map_of (fields_obj ot2) (fieldName f) = Some fc' \<and>
                     type fc' = (if isList f then connectionType b
                                 else GraphQLObjectType (name (objectType b))))"
    and norel: "\<not> isRelation (type fc1) \<longrightarrow> map_of (fields_obj ot2) (fieldName f) = Some fc1"
    by auto
  have "\<exists>fc2 t. map_of (fields_obj ot2) (fieldName f) = Some fc2 \<and> type fc2 = t \<and>
           (typeIdentifier f \<in> set concreteTypeIdentifiers \<longrightarrow>
              isConcreteType t \<and> (\<exists>u. t = fst (parseClientType f (modelName cs) u))) \<and>
           (typeIdentifier f \<notin> set concreteTypeIdentifiers \<longrightarrow>
              typeIdentifier f \<in> fst ` set ct1 \<and>
              t = (if isList f then ConnectionType (typeIdentifier f)
                   else GraphQLObjectType (typeIdentifier f)))"
  proof (cases "typeIdentifier f \<in> set concreteTypeIdentifiers")
    case True
    then have "\<not> isRelation (type fc1)" and "isConcreteType (type fc1)"
      using t1 parseClientType_isRelation [of f "modelName cs" u']
            parseClientType_isConcrete [of f "modelName cs" u'] by simp_all
    with norel True t1 show ?thesis by auto
  next
    case False
    then have ty: "type fc1 = Relation (typeIdentifier f)"
      using t1 parseClientType_marker [of f "modelName cs" u'] by simp
    with rel obtain b fc' where
      b: "map_of ct1 (typeIdentifier f) = Some b"
      and fc': "map_of (fields_obj ot2) (fieldName f) = Some fc'"
      and t': "type fc' = (if isList f then connectionType b else GraphQLObjectType (name (objectType b)))"
      by auto
    from pass1_entries [of clientSchemas isScalar schemaType "\<lparr>store = st, enumTypes = []\<rparr>"
                           "typeIdentifier f" b] b
    have "connectionType b = ConnectionType (typeIdentifier f)"
         "name (objectType b) = typeIdentifier f"
      by (simp_all add: ct1_def)
    moreover from map_of_SomeD [OF b] have "typeIdentifier f \<in> fst ` set ct1"
      by (simp add: image_iff) force
    ultimately show ?thesis using fc' t' False by auto
  qed
  then obtain fc2 where
    fc2: "map_of (fields_obj ot2) (fieldName f) = Some fc2"
    and t2c: "typeIdentifier f \<in> set concreteTypeIdentifiers \<longrightarrow>
              isConcreteType (type fc2) \<and> (\<exists>u. type fc2 = fst (parseClientType f (modelName cs) u))"
    and t2r: "typeIdentifier f \<notin> set concreteTypeIdentifiers \<longrightarrow>
              typeIdentifier f \<in> fst ` set ct1 \<and>
              type fc2 = (if isList f then ConnectionType (typeIdentifier f)
                          else GraphQLObjectType (typeIdentifier f))"
    by auto
  have d2: "distinct (map fst ct2)" using d1 keys2 by simp
  have in2: "modelName cs \<in> set (map fst ct2)" using in1 keys2 by simp
  have "\<exists>b ot. map_of ct2 (modelName cs) = Some b \<and> pass3 b ct2 = Inr ot \<and>
                 map_of (clientTypes res) (modelName cs) = Some (b\<lparr>objectType := ot\<rparr>)"
    by (rule forEachE_onBundle(2) [OF p3 name3 refs3 d2 in2])
  with b2 obtain ot3 where
    ot3: "pass3 (b1\<lparr>objectType := ot2\<rparr>) ct2 = Inr ot3"
    and b3: "map_of (clientTypes res) (modelName cs) = Some (b1\<lparr>objectType := ot3\<rparr>)"
    by auto
  from ot3 have wrap: "wrapWithNonNull ot2 cs = Inr ot3"
    by (simp add: pass3_def b1_schema)
  from wrapWithNonNull_field [OF wrap assms(4,5,6)] fc2 have
    nn: "\<not> isNonNull (type fc2)"
    and fc3: "map_of (fields_obj ot3) (fieldName f) = Some (fc2\<lparr>type := GraphQLNonNull (type fc2)\<rparr>)"
    by auto
  have norel2: "\<not> isRelation (type fc2)"
    using t2c t2r by (cases "typeIdentifier f \<in> set concreteTypeIdentifiers"; cases "type fc2") auto
  have keys: "fst ` set (clientTypes res) = fst ` set ct1"
    using arg_cong [OF keys3, of set] by simp
  show ?thesis
    using b3 b1_schema fc3 nn norel2 t2c t2r keys
    by (intro exI [of _ "b1\<lparr>objectType := ot3\<rparr>"]
              exI [of _ "fc2\<lparr>type := GraphQLNonNull (type fc2)\<rparr>"]
              exI [of _ "type fc2"]) simp
qed


lemma objectFieldType_Inr:
  "map_of (clientTypes res) m = Some b \<Longrightarrow> map_of (fields_obj (objectType b)) f = Some fc \<Longrightarrow>
     objectFieldType (Inr (res, st)) m f = Some (type fc)"
  by (simp add: objectFieldType_def)

theorem required_fields_nonnull_witness:
  "objectFieldType (createTypes exIsScalar [exUser, exPost] SIMPLE []) ''User'' ''posts''
     = Some (GraphQLNonNull (ConnectionType ''Post'')) \<and>
   objectFieldType (createTypes exIsScalar [exUser, exPost] SIMPLE []) ''Post'' ''author''
     = Some (GraphQLNonNull (GraphQLObjectType ''User''))"
proof -
  let ?X = "createTypes exIsScalar [exUser, exPost] SIMPLE []"
  have run: "?X = Inr (fst (projr ?X), snd (projr ?X))"
    by code_simp
  have models: "distinct (map modelName [exUser, exPost])"
    by (simp add: exUser_def exPost_def)
  have user: "exUser \<in> set [exUser, exPost]" and post: "exPost \<in> set [exUser, exPost]"
    by simp_all
  have ufields: "distinct (map fieldName (fields_list exUser))"
    and pfields: "distinct (map fieldName (fields_list exPost))"
    by (simp_all add: exUser_def exPost_def exField_def)
  have posts: "exField ''posts'' ''Post'' True True \<in> set (fields_list exUser)"
              "isRequired (exField ''posts'' ''Post'' True True)"
    and author: "exField ''author'' ''User'' True False \<in> set (fields_list exPost)"
                "isRequired (exField ''author'' ''User'' True False)"
    by (simp_all add: exUser_def exPost_def exField_def)
  have rel: "typeIdentifier (exField ''posts'' ''Post'' True True) \<notin> set concreteTypeIdentifiers"
            "typeIdentifier (exField ''author'' ''User'' True False) \<notin> set concreteTypeIdentifiers"
    by (simp_all add: exField_def concreteTypeIdentifiers_def)
  have names: "modelName exUser = ''User''" "modelName exPost = ''Post''"
              "fieldName (exField ''posts'' ''Post'' True True) = ''posts''"
              "fieldName (exField ''author'' ''User'' True False) = ''author''"
              "isList (exField ''posts'' ''Post'' True True)"
              "\<not> isList (exField ''author'' ''User'' True False)"
              "typeIdentifier (exField ''posts'' ''Post'' True True) = ''Post''"
              "typeIdentifier (exField ''author'' ''User'' True False) = ''User''"
    by (simp_all add: exUser_def exPost_def exField_def)
  from required_fields_nonnull [OF run models user ufields posts] rel(1)
  obtain b fc where
    "map_of (clientTypes (fst (projr ?X))) ''User'' = Some b"
    "map_of (fields_obj (objectType b)) ''posts'' = Some fc"
    "type fc = GraphQLNonNull (ConnectionType ''Post'')"
    by (auto simp: names)
  from objectFieldType_Inr [OF this(1,2), of "snd (projr ?X)"] this(3)
  have 1: "objectFieldType ?X ''User'' ''posts'' = Some (GraphQLNonNull (ConnectionType ''Post''))"
    using run by simp
  from required_fields_nonnull [OF run models post pfields author] rel(2)
  obtain b' fc' where
    "map_of (clientTypes (fst (projr ?X))) ''Post'' = Some b'"
    "map_of (fields_obj (objectType b')) ''author'' = Some fc'"
    "type fc' = GraphQLNonNull (GraphQLObjectType ''User'')"
    by (auto simp: names)
  from objectFieldType_Inr [OF this(1,2), of "snd (projr ?X)"] this(3)
  have 2: "objectFieldType ?X ''Post'' ''author'' = Some (GraphQLNonNull (GraphQLObjectType ''User''))"
    using run by simp
  from 1 2 show ?thesis by (intro conjI)
qed

end
